theory Spec2Isabelle
  imports Main "HOL-Library.Word" "HOL-Library.Sublist"
begin

section \<open>Definition builders for WebIDL and TypeScript (src/definitions.ts)\<close>

text \<open>
  A shallow embedding of \<^verbatim>\<open>ExportsWalker\<close>, \<^verbatim>\<open>IDLBuilder\<close> and \<^verbatim>\<open>TSDBuilder\<close>.
  The builders are stateful objects; their three private fields become a record that
  every method takes and returns. A failed \<^verbatim>\<open>assert\<close> ends the run, so every method
  returns \<open>error + Builder\<close>.
\<close>

subsection \<open>Data model\<close>

datatype error = AssertionFailed

text \<open>
  Modelled from the spec: the enums \<^verbatim>\<open>ElementKind\<close>, \<^verbatim>\<open>CommonFlags\<close>, \<^verbatim>\<open>TypeKind\<close> and
  \<^verbatim>\<open>ConstantValueKind\<close> are imported from \<^verbatim>\<open>./program\<close> and \<^verbatim>\<open>./types\<close>, which are
  not among the sources. The element kinds are the nine of section 3 of the
  specification, the flags its three, the type kinds the fourteen that both
  \<^verbatim>\<open>typeToString\<close> name; \<open>UNLISTED\<close> stands for every type kind that \<^verbatim>\<open>typeToString\<close>
  has no \<^verbatim>\<open>case\<close> for, and \<open>NONE\<close> for a constant kind that is neither \<^verbatim>\<open>INTEGER\<close>
  nor \<^verbatim>\<open>FLOAT\<close> (the \<^verbatim>\<open>default\<close> branch of \<^verbatim>\<open>IDLBuilder.visitGlobal\<close>).
\<close>

datatype ElementKind = GLOBAL | ENUM | ENUMVALUE | FUNCTION_PROTOTYPE | FUNCTION
  | CLASS_PROTOTYPE | CLASS | INTERFACE | NAMESPACE

datatype CommonFlags = COMPILED | INLINED | ABSTRACT

datatype TypeKind = I8 | I16 | I32 | I64 | ISIZE | U8 | U16 | U32 | U64 | USIZE
  | BOOL | F32 | F64 | VOID | UNLISTED

datatype ConstantValueKind = NONE | INTEGER | FLOAT

text \<open>
  Modelled from the spec: a type is used through its kind only, and a signature has
  its parameter types, its parameter names and its return type.
  \<^verbatim>\<open>signature.getParameterName(i)\<close> is a method of a class that is not among the
  sources; it is kept as a field of the signature, a function of the index.
\<close>

datatype Type = Type (kind: TypeKind)

record Signature =
  parameterTypes :: "Type list"
  getParameterName :: "nat \<Rightarrow> string"
  returnType :: Type

text \<open>
  Modelled from the spec: the classes below \<^verbatim>\<open>Element\<close> are declared in
  \<^verbatim>\<open>./program\<close>; the fields are those of section 3 of the specification, under the
  names by which the builders read them. An element is an object of that class
  hierarchy, and the builders read its fields after unchecked casts
  (\<^verbatim>\<open><Global>element\<close>), so one constructor carries the fields of all subclasses.
  \<open>eid\<close> is the identity of the object: \<^verbatim>\<open>Set<Element>\<close> compares references, and
  two occurrences of one object in the export graph are two occurrences of a term
  with the same \<open>eid\<close>. A \<^verbatim>\<open>Map<string, Element>\<close> is iterated in insertion order, so
  it is an association list; \<^verbatim>\<open>null\<close> members are \<open>None\<close>. \<open>constantFloatValue\<close> holds
  the text that \<^verbatim>\<open>toString()\<close> yields for the float.
\<close>

datatype Element = Element
  (eid: nat)
  (kind: ElementKind)
  (simpleName: string)
  (flags: "CommonFlags set")
  (members: "(string \<times> Element) list option")
  (instances: "Element list")
  (type: Type)
  (constantValueKind: ConstantValueKind)
  (constantIntegerValue: "64 word")
  (constantFloatValue: string)
  (constantValue: int)
  (signature: Signature)
  (base: "Element option")

text \<open>
  The program as far as the builders read it: \<^verbatim>\<open>program.moduleLevelExports\<close> and
  \<^verbatim>\<open>program.options.isWasm64\<close>.
\<close>

record Program =
  moduleLevelExports :: "(string \<times> Element) list"
  isWasm64 :: bool

text \<open>
  The private fields \<^verbatim>\<open>sb\<close>, \<^verbatim>\<open>seen\<close> and \<^verbatim>\<open>indentLevel\<close> of a builder. The
  depth is declared \<^verbatim>\<open>i32\<close>; it changes by one at a time from zero, at most once
  for each element visited, so it is an integer here and no run comes near the ends
  of the 32-bit range.
\<close>

record Builder =
  sb :: "string list"
  seen :: "nat set"
  indentLevel :: int

definition isFlag :: "Element \<Rightarrow> CommonFlags \<Rightarrow> bool" where
  "isFlag element flag = (flag \<in> flags element)"

definition push :: "Builder \<Rightarrow> string \<Rightarrow> Builder" where
  "push b s = b\<lparr>sb := sb b @ [s]\<rparr>"

text \<open>Several \<^verbatim>\<open>sb.push\<close> calls in a row.\<close>

definition pushAll :: "Builder \<Rightarrow> string list \<Rightarrow> Builder" where
  "pushAll b ss = b\<lparr>sb := sb b @ ss\<rparr>"

text \<open>
  Modelled from the spec: \<^verbatim>\<open>indent\<close> is imported from \<^verbatim>\<open>./util\<close>, which is not among
  the sources. The spec has each line prefixed by the current depth; the unit is two
  blanks, as in the prologue lines that \<^verbatim>\<open>TSDBuilder.build\<close> writes at depth one.
\<close>

definition indent :: "Builder \<Rightarrow> int \<Rightarrow> Builder" where
  "indent b level = push b (concat (replicate (nat level) ''  ''))"

text \<open>
  Modelled from the spec: \<^verbatim>\<open>i64_to_string\<close> and \<^verbatim>\<open>toString(10)\<close> are not defined in this
  file; integer literals render as signed decimal.
\<close>

fun decimal :: "nat \<Rightarrow> string" where
  "decimal n =
    (if n < 10 then [''0123456789'' ! n]
     else decimal (n div 10) @ [''0123456789'' ! (n mod 10)])"

declare decimal.simps [simp del]

definition int_toString :: "int \<Rightarrow> string" where
  "int_toString i = (if i < 0 then CHR ''-'' # decimal (nat (- i)) else decimal (nat i))"

definition i64_to_string :: "64 word \<Rightarrow> string" where
  "i64_to_string v = int_toString (sint v)"

text \<open>A \<^verbatim>\<open>for ... of\<close> loop whose body may fail: the first failure ends the loop.\<close>

fun forEach :: "('s \<Rightarrow> 'a \<Rightarrow> error + 's) \<Rightarrow> 's \<Rightarrow> 'a list \<Rightarrow> error + 's" where
  "forEach f st [] = Inr st"
| "forEach f st (x # xs) =
    (case f st x of Inl err \<Rightarrow> Inl err | Inr st' \<Rightarrow> forEach f st' xs)"

lemma forEach_cong [fundef_cong]:
  "xs = ys \<Longrightarrow> st = st' \<Longrightarrow> (\<And>s x. x \<in> set ys \<Longrightarrow> f s x = g s x)
    \<Longrightarrow> forEach f st xs = forEach g st' ys"
  by (induction ys arbitrary: xs st st') (auto split: sum.splits)

lemma size_instances [termination_simp]:
  "m \<in> set (instances e) \<Longrightarrow> size m < size e"
  by (cases e)
    (auto simp: less_Suc_eq_le intro: trans_le_add1 trans_le_add2 size_list_estimation')

lemma size_members_aux:
  "(n, m) \<in> set ms \<Longrightarrow> size m \<le> size_list (size_prod (\<lambda>x. 0) size) ms"
  by (rule size_list_estimation' [where x = "(n, m)"]) simp_all

lemma size_members [termination_simp]:
  "members e = Some ms \<Longrightarrow> m \<in> snd ` set ms \<Longrightarrow> size m < size e"
  by (cases e) (auto simp: less_Suc_eq_le intro!: trans_le_add1 dest: size_members_aux)

subsection \<open>IDLBuilder\<close>

definition IDLBuilder_typeToString :: "Program \<Rightarrow> Type \<Rightarrow> error + string" where
  "IDLBuilder_typeToString p t =
    (case Type.kind t of
       I8 \<Rightarrow> Inr ''byte''
     | I16 \<Rightarrow> Inr ''short''
     | I32 \<Rightarrow> Inr ''long''
     | I64 \<Rightarrow> Inr ''long long''
     | ISIZE \<Rightarrow> Inr (if isWasm64 p then ''long long'' else ''long'')
     | U8 \<Rightarrow> Inr ''octet''
     | U16 \<Rightarrow> Inr ''unsigned short''
     | U32 \<Rightarrow> Inr ''unsigned long''
     | U64 \<Rightarrow> Inr ''unsigned long long''
     | USIZE \<Rightarrow> Inr (if isWasm64 p then ''unsigned long long'' else ''unsigned long'')
     | BOOL \<Rightarrow> Inr ''boolean''
     | F32 \<Rightarrow> Inr ''unrestricted float''
     | F64 \<Rightarrow> Inr ''unrestricted double''
     | VOID \<Rightarrow> Inr ''void''
     | UNLISTED \<Rightarrow> Inl AssertionFailed)"

definition IDLBuilder_visitGlobal :: "Program \<Rightarrow> Builder \<Rightarrow> Element \<Rightarrow> error + Builder" where
  "IDLBuilder_visitGlobal p b element =
    (if eid element \<in> seen b then Inr b
     else
       let b = b\<lparr>seen := insert (eid element) (seen b)\<rparr>;
           isConst = isFlag element INLINED;
           b = indent b (indentLevel b);
           b = (if isConst then push b ''const '' else b)
       in case IDLBuilder_typeToString p (type element) of
            Inl err \<Rightarrow> Inl err
          | Inr s \<Rightarrow>
              let b = pushAll b [s, '' '', simpleName element]
              in if isConst then
                   (case constantValueKind element of
                      INTEGER \<Rightarrow>
                        Inr (pushAll b
                          ['' = '', i64_to_string (constantIntegerValue element), '';\<newline>''])
                    | FLOAT \<Rightarrow>
                        Inr (pushAll b ['' = '', constantFloatValue element, '';\<newline>''])
                    | NONE \<Rightarrow> Inl AssertionFailed)
                 else Inr (push b '';\<newline>''))"

text \<open>The body of the first loop of \<^verbatim>\<open>IDLBuilder.visitEnum\<close>, over the entries.\<close>

definition IDLBuilder_enumValue :: "Builder \<Rightarrow> string \<times> Element \<Rightarrow> Builder" where
  "IDLBuilder_enumValue b entry =
    (let name = fst entry; member = snd entry
     in if kind member = ENUMVALUE then
          let isConst = isFlag member INLINED;
              b = indent b (indentLevel b);
              b = (if isConst then push b ''const '' else push b ''readonly '');
              b = pushAll b [''unsigned long '', name];
              b = (if isConst then pushAll b ['' = '', int_toString (constantValue member)]
                   else b)
          in push b '';\<newline>''
        else b)"

definition IDLBuilder_visitClass :: "Builder \<Rightarrow> Element \<Rightarrow> error + Builder" where
  "IDLBuilder_visitClass b element =
    (if eid element \<in> seen b then Inr b
     else
       let b = b\<lparr>seen := insert (eid element) (seen b)\<rparr>;
           b = indent b (indentLevel b);
           b = b\<lparr>indentLevel := indentLevel b + 1\<rparr>;
           b = pushAll b [''interface '', simpleName element, '' {\<newline>''];
           b = b\<lparr>indentLevel := indentLevel b - 1\<rparr>;
           b = indent b (indentLevel b)
       in Inr (push b ''}\<newline>''))"

definition IDLBuilder_visitInterface :: "Builder \<Rightarrow> Element \<Rightarrow> error + Builder" where
  "IDLBuilder_visitInterface b element = IDLBuilder_visitClass b element"

text \<open>
  \<^verbatim>\<open>ExportsWalker.visitElement\<close> with the callbacks of \<^verbatim>\<open>IDLBuilder\<close>, which call it
  back for the members.
\<close>

fun IDLBuilder_visitElement :: "Program \<Rightarrow> Builder \<Rightarrow> Element \<Rightarrow> error + Builder"
  and IDLBuilder_visitEnum :: "Program \<Rightarrow> Builder \<Rightarrow> Element \<Rightarrow> error + Builder"
  and IDLBuilder_visitFunction :: "Program \<Rightarrow> Builder \<Rightarrow> Element \<Rightarrow> error + Builder"
  and IDLBuilder_visitNamespace :: "Program \<Rightarrow> Builder \<Rightarrow> Element \<Rightarrow> error + Builder"
where
  "IDLBuilder_visitElement p b element =
    (case kind element of
       GLOBAL \<Rightarrow>
         if isFlag element COMPILED then IDLBuilder_visitGlobal p b element else Inr b
     | ENUM \<Rightarrow>
         if isFlag element COMPILED then IDLBuilder_visitEnum p b element else Inr b
     | FUNCTION_PROTOTYPE \<Rightarrow>
         forEach (\<lambda>b instance.
             if isFlag instance COMPILED then IDLBuilder_visitFunction p b instance
             else Inr b)
           b (instances element)
     | CLASS_PROTOTYPE \<Rightarrow>
         forEach (\<lambda>b instance.
             if isFlag instance COMPILED then IDLBuilder_visitClass b instance
             else Inr b)
           b (instances element)
     | NAMESPACE \<Rightarrow>
         if isFlag element COMPILED then IDLBuilder_visitNamespace p b element else Inr b
     | _ \<Rightarrow> Inl AssertionFailed)"
| "IDLBuilder_visitEnum p b element =
    (if eid element \<in> seen b then Inr b
     else
       let b = b\<lparr>seen := insert (eid element) (seen b)\<rparr>;
           b = indent b (indentLevel b);
           b = b\<lparr>indentLevel := indentLevel b + 1\<rparr>;
           b = pushAll b [''interface '', simpleName element, '' {\<newline>'']
       in case (case members element of
                  None \<Rightarrow> Inr b
                | Some ms \<Rightarrow>
                    forEach (\<lambda>b member.
                        if kind member \<noteq> ENUMVALUE then IDLBuilder_visitElement p b member
                        else Inr b)
                      (foldl IDLBuilder_enumValue b ms) (map snd ms)) of
            Inl err \<Rightarrow> Inl err
          | Inr b \<Rightarrow>
              let b = b\<lparr>indentLevel := indentLevel b - 1\<rparr>;
                  b = indent b (indentLevel b)
              in Inr (push b ''}\<newline>''))"
| "IDLBuilder_visitFunction p b element =
    (if eid element \<in> seen b then Inr b
     else
       let b = b\<lparr>seen := insert (eid element) (seen b)\<rparr>;
           sig = signature element;
           b = indent b (indentLevel b)
       in case IDLBuilder_typeToString p (returnType sig) of
            Inl err \<Rightarrow> Inl err
          | Inr ret \<Rightarrow>
             (let b = pushAll b [ret, '' '', simpleName element, ''(''];
                  parameters = parameterTypes sig
              in (case forEach (\<lambda>b i.
                          let b = (if i \<noteq> 0 then push b '', '' else b)
                          in (case IDLBuilder_typeToString p (parameters ! i) of
                                Inl err \<Rightarrow> Inl err
                              | Inr s \<Rightarrow> Inr (pushAll b [s, '' '', getParameterName sig i])))
                        b (upt 0 (length parameters)) of
                    Inl err \<Rightarrow> Inl err
                  | Inr b \<Rightarrow>
                     (let b = push b '');\<newline>''
                      in (case members element of
                            None \<Rightarrow> Inr b
                          | Some ms \<Rightarrow>
                              if ms \<noteq> [] then
                                (let b = indent b (indentLevel b);
                                     b = pushAll b
                                       [''interface '', simpleName element, '' {\<newline>'']
                                 in (case forEach (IDLBuilder_visitElement p) b (map snd ms) of
                                       Inl err \<Rightarrow> Inl err
                                     | Inr b \<Rightarrow>
                                         let b = b\<lparr>indentLevel := indentLevel b - 1\<rparr>;
                                             b = indent b (indentLevel b)
                                         in Inr (push b ''}\<newline>'')))
                              else Inr b)))))"
| "IDLBuilder_visitNamespace p b element =
    (if eid element \<in> seen b then Inr b
     else
       let b = b\<lparr>seen := insert (eid element) (seen b)\<rparr>;
           b = indent b (indentLevel b);
           b = b\<lparr>indentLevel := indentLevel b + 1\<rparr>;
           b = pushAll b [''interface '', simpleName element, '' {\<newline>'']
       in case (case members element of
                  None \<Rightarrow> Inr b
                | Some ms \<Rightarrow> forEach (IDLBuilder_visitElement p) b (map snd ms)) of
            Inl err \<Rightarrow> Inl err
          | Inr b \<Rightarrow>
              let b = b\<lparr>indentLevel := indentLevel b - 1\<rparr>;
                  b = indent b (indentLevel b)
              in Inr (push b ''}\<newline>''))"

declare IDLBuilder_visitElement.simps [simp del]
declare IDLBuilder_visitEnum.simps [simp del]
declare IDLBuilder_visitFunction.simps [simp del]
declare IDLBuilder_visitNamespace.simps [simp del]

definition IDLBuilder_walk :: "Program \<Rightarrow> Builder \<Rightarrow> error + Builder" where
  "IDLBuilder_walk p b = forEach (IDLBuilder_visitElement p) b (map snd (moduleLevelExports p))"

text \<open>The fields of a builder that the constructor has just made.\<close>

definition newBuilder :: Builder where
  "newBuilder = \<lparr>sb = [], seen = {}, indentLevel = 0\<rparr>"

text \<open>The method \<^verbatim>\<open>build()\<close> on a builder in state \<open>b\<close>: the string and the state left.\<close>

definition IDLBuilder_build_method :: "Program \<Rightarrow> Builder \<Rightarrow> error + string \<times> Builder" where
  "IDLBuilder_build_method p b =
    (let b = push b ''interface ASModule {\<newline>'';
         b = b\<lparr>indentLevel := indentLevel b + 1\<rparr>
     in case IDLBuilder_walk p b of
          Inl err \<Rightarrow> Inl err
        | Inr b \<Rightarrow>
            let b = b\<lparr>indentLevel := indentLevel b - 1\<rparr>;
                b = push b ''}\<newline>''
            in Inr (concat (sb b), b))"

text \<open>The static \<^verbatim>\<open>IDLBuilder.build(program)\<close>: \<^verbatim>\<open>new IDLBuilder(program).build()\<close>.\<close>

definition IDLBuilder_build :: "Program \<Rightarrow> error + string" where
  "IDLBuilder_build p = map_sum id fst (IDLBuilder_build_method p newBuilder)"

subsection \<open>TSDBuilder\<close>

definition TSDBuilder_typeToString :: "Program \<Rightarrow> Type \<Rightarrow> error + string" where
  "TSDBuilder_typeToString p t =
    (case Type.kind t of
       I8 \<Rightarrow> Inr ''i8''
     | I16 \<Rightarrow> Inr ''i16''
     | I32 \<Rightarrow> Inr ''i32''
     | I64 \<Rightarrow> Inr ''I64''
     | ISIZE \<Rightarrow> Inr (if isWasm64 p then ''I64'' else ''i32'')
     | U8 \<Rightarrow> Inr ''u8''
     | U16 \<Rightarrow> Inr ''u16''
     | U32 \<Rightarrow> Inr ''u32''
     | U64 \<Rightarrow> Inr ''U64''
     | USIZE \<Rightarrow> Inr (if isWasm64 p then ''U64'' else ''u32'')
     | BOOL \<Rightarrow> Inr ''bool''
     | F32 \<Rightarrow> Inr ''f32''
     | F64 \<Rightarrow> Inr ''f64''
     | VOID \<Rightarrow> Inr ''void''
     | UNLISTED \<Rightarrow> Inl AssertionFailed)"

text \<open>
  The body of the loop of \<^verbatim>\<open>TSDBuilder.visitEnum\<close> over the entries; the loop carries
  the builder and the local \<^verbatim>\<open>numMembers\<close>.
\<close>

definition TSDBuilder_enumValue :: "Builder \<times> int \<Rightarrow> string \<times> Element \<Rightarrow> Builder \<times> int" where
  "TSDBuilder_enumValue st entry =
    (let b = fst st; numMembers = snd st; name = fst entry; member = snd entry
     in if kind member = ENUMVALUE then
          let b = b\<lparr>seen := insert (eid member) (seen b)\<rparr>;
              b = indent b (indentLevel b);
              b = push b name;
              b = (if isFlag member INLINED
                   then pushAll b ['' = '', int_toString (constantValue member)]
                   else b)
          in (push b '',\<newline>'', numMembers - 1)
        else (b, numMembers))"

definition TSDBuilder_visitClass :: "Builder \<Rightarrow> Element \<Rightarrow> error + Builder" where
  "TSDBuilder_visitClass b element =
    (if eid element \<in> seen b then Inr b
     else
       let b = b\<lparr>seen := insert (eid element) (seen b)\<rparr>;
           isInterface = (kind element = INTERFACE);
           b = indent b (indentLevel b);
           b = b\<lparr>indentLevel := indentLevel b + 1\<rparr>;
           b = (if isInterface then push b ''interface ''
                else push (if isFlag element ABSTRACT then push b ''abstract '' else b)
                       ''class '');
           b = push b (simpleName element);
           b = (case base element of
                  None \<Rightarrow> b
                | Some baseClass \<Rightarrow> pushAll b ['' extends '', simpleName baseClass]);
           b = push b '' {\<newline>'';
           b = b\<lparr>indentLevel := indentLevel b - 1\<rparr>;
           b = indent b (indentLevel b)
       in Inr (push b ''}\<newline>''))"

definition TSDBuilder_visitInterface :: "Builder \<Rightarrow> Element \<Rightarrow> error + Builder" where
  "TSDBuilder_visitInterface b element = TSDBuilder_visitClass b element"

text \<open>\<^verbatim>\<open>ExportsWalker.visitElement\<close> with the callbacks of \<^verbatim>\<open>TSDBuilder\<close>.\<close>

fun TSDBuilder_visitElement :: "Program \<Rightarrow> Builder \<Rightarrow> Element \<Rightarrow> error + Builder"
  and TSDBuilder_visitGlobal :: "Program \<Rightarrow> Builder \<Rightarrow> Element \<Rightarrow> error + Builder"
  and TSDBuilder_visitEnum :: "Program \<Rightarrow> Builder \<Rightarrow> Element \<Rightarrow> error + Builder"
  and TSDBuilder_visitFunction :: "Program \<Rightarrow> Builder \<Rightarrow> Element \<Rightarrow> error + Builder"
  and TSDBuilder_visitNamespace :: "Program \<Rightarrow> Builder \<Rightarrow> Element \<Rightarrow> error + Builder"
where
  "TSDBuilder_visitElement p b element =
    (case kind element of
       GLOBAL \<Rightarrow>
         if isFlag element COMPILED then TSDBuilder_visitGlobal p b element else Inr b
     | ENUM \<Rightarrow>
         if isFlag element COMPILED then TSDBuilder_visitEnum p b element else Inr b
     | FUNCTION_PROTOTYPE \<Rightarrow>
         forEach (\<lambda>b instance.
             if isFlag instance COMPILED then TSDBuilder_visitFunction p b instance
             else Inr b)
           b (instances element)
     | CLASS_PROTOTYPE \<Rightarrow>
         forEach (\<lambda>b instance.
             if isFlag instance COMPILED then TSDBuilder_visitClass b instance
             else Inr b)
           b (instances element)
     | NAMESPACE \<Rightarrow>
         if isFlag element COMPILED then TSDBuilder_visitNamespace p b element else Inr b
     | _ \<Rightarrow> Inl AssertionFailed)"
| "TSDBuilder_visitGlobal p b element =
    (if eid element \<in> seen b then Inr b
     else
       let b = b\<lparr>seen := insert (eid element) (seen b)\<rparr>;
           isConst = isFlag element INLINED;
           b = indent b (indentLevel b);
           b = (if isConst then push b ''const '' else b);
           b = pushAll b [simpleName element, '': '']
       in case TSDBuilder_typeToString p (type element) of
            Inl err \<Rightarrow> Inl err
          | Inr s \<Rightarrow> TSDBuilder_visitNamespace p (pushAll b [s, '';\<newline>'']) element)"
| "TSDBuilder_visitEnum p b element =
    (if eid element \<in> seen b then Inr b
     else
       let b = b\<lparr>seen := insert (eid element) (seen b)\<rparr>;
           b = indent b (indentLevel b);
           b = b\<lparr>indentLevel := indentLevel b + 1\<rparr>;
           b = pushAll b [''enum '', simpleName element, '' {\<newline>'']
       in case (case members element of
                  None \<Rightarrow> Inr b
                | Some ms \<Rightarrow>
                   (let st = foldl TSDBuilder_enumValue (b, int (length ms)) ms;
                        b = fst st;
                        numMembers = snd st
                    in if numMembers \<noteq> 0 then TSDBuilder_visitNamespace p b element
                       else Inr b)) of
            Inl err \<Rightarrow> Inl err
          | Inr b \<Rightarrow>
              let b = b\<lparr>indentLevel := indentLevel b - 1\<rparr>;
                  b = indent b (indentLevel b)
              in Inr (push b ''}\<newline>''))"
| "TSDBuilder_visitFunction p b element =
    (if eid element \<in> seen b then Inr b
     else
       let b = b\<lparr>seen := insert (eid element) (seen b)\<rparr>;
           sig = signature element;
           b = indent b (indentLevel b);
           b = pushAll b [''function '', simpleName element, ''(''];
           parameters = parameterTypes sig
       in case forEach (\<lambda>b i.
                   let b = (if i \<noteq> 0 then push b '', '' else b);
                       b = pushAll b [getParameterName sig i, '': '']
                   in (case TSDBuilder_typeToString p (parameters ! i) of
                         Inl err \<Rightarrow> Inl err
                       | Inr s \<Rightarrow> Inr (push b s)))
                 b (upt 0 (length parameters)) of
            Inl err \<Rightarrow> Inl err
          | Inr b \<Rightarrow>
             (let b = push b ''): ''
              in (case TSDBuilder_typeToString p (returnType sig) of
                    Inl err \<Rightarrow> Inl err
                  | Inr ret \<Rightarrow>
                      TSDBuilder_visitNamespace p (pushAll b [ret, '';\<newline>'']) element)))"
| "TSDBuilder_visitNamespace p b element =
    (case members element of
       None \<Rightarrow> Inr b
     | Some ms \<Rightarrow>
         if ms \<noteq> [] then
           (let b = indent b (indentLevel b);
                b = b\<lparr>indentLevel := indentLevel b + 1\<rparr>;
                b = pushAll b [''namespace '', simpleName element, '' {\<newline>'']
            in (case forEach (TSDBuilder_visitElement p) b (map snd ms) of
                  Inl err \<Rightarrow> Inl err
                | Inr b \<Rightarrow>
                    let b = b\<lparr>indentLevel := indentLevel b - 1\<rparr>;
                        b = indent b (indentLevel b)
                    in Inr (push b ''}\<newline>'')))
         else Inr b)"

declare TSDBuilder_visitElement.simps [simp del]
declare TSDBuilder_visitGlobal.simps [simp del]
declare TSDBuilder_visitEnum.simps [simp del]
declare TSDBuilder_visitFunction.simps [simp del]
declare TSDBuilder_visitNamespace.simps [simp del]

definition TSDBuilder_walk :: "Program \<Rightarrow> Builder \<Rightarrow> error + Builder" where
  "TSDBuilder_walk p b = forEach (TSDBuilder_visitElement p) b (map snd (moduleLevelExports p))"

definition TSDBuilder_build_method :: "Program \<Rightarrow> Builder \<Rightarrow> error + string \<times> Builder" where
  "TSDBuilder_build_method p b =
    (let b = pushAll b
           [''declare module ASModule {\<newline>'',
            ''  type i8 = number;\<newline>'',
            ''  type i16 = number;\<newline>'',
            ''  type i32 = number;\<newline>'',
            ''  type u8 = number;\<newline>'',
            ''  type u16 = number;\<newline>'',
            ''  type u32 = number;\<newline>'',
            ''  type f32 = number;\<newline>'',
            ''  type f64 = number;\<newline>'',
            ''  type bool = any;\<newline>''];
         b = b\<lparr>indentLevel := indentLevel b + 1\<rparr>
     in case TSDBuilder_walk p b of
          Inl err \<Rightarrow> Inl err
        | Inr b \<Rightarrow>
            let b = b\<lparr>indentLevel := indentLevel b - 1\<rparr>;
                b = push b ''}\<newline>''
            in Inr (concat (sb b), b))"

definition TSDBuilder_build :: "Program \<Rightarrow> error + string" where
  "TSDBuilder_build p = map_sum id fst (TSDBuilder_build_method p newBuilder)"

section \<open>What the specification states, as definitions\<close>

text \<open>The table of section 4.2 of the specification, in its own words.\<close>

definition WebIDL_spelling :: "bool \<Rightarrow> (TypeKind \<times> string) list" where
  "WebIDL_spelling wasm64 =
    [(I8, ''byte''), (I16, ''short''), (I32, ''long''), (I64, ''long long''),
     (ISIZE, if wasm64 then ''long long'' else ''long''),
     (U8, ''octet''), (U16, ''unsigned short''), (U32, ''unsigned long''),
     (U64, ''unsigned long long''),
     (USIZE, if wasm64 then ''unsigned long long'' else ''unsigned long''),
     (BOOL, ''boolean''), (F32, ''unrestricted float''), (F64, ''unrestricted double''),
     (VOID, ''void'')]"

text \<open>The table of section 4.3 of the specification, with the aliases the builder writes.\<close>

definition TypeScript_spelling :: "bool \<Rightarrow> (TypeKind \<times> string) list" where
  "TypeScript_spelling wasm64 =
    [(I8, ''i8''), (I16, ''i16''), (I32, ''i32''), (U8, ''u8''), (U16, ''u16''),
     (U32, ''u32''), (F32, ''f32''), (F64, ''f64''),
     (I64, ''I64''), (U64, ''U64''),
     (ISIZE, if wasm64 then ''I64'' else ''i32''),
     (USIZE, if wasm64 then ''U64'' else ''u32''),
     (BOOL, ''bool''), (VOID, ''void'')]"

text \<open>
  The error \<open>err\<close> of a run of the dispatcher on \<open>e\<close> is the error of a callback that
  the dispatcher has invoked: the callback of the kind, for a compiled element, or
  \<^verbatim>\<open>visitFunction\<close> on a compiled instance of a function prototype.
\<close>

definition IDL_callbackFailed :: "Program \<Rightarrow> Builder \<Rightarrow> Element \<Rightarrow> error \<Rightarrow> bool" where
  "IDL_callbackFailed p b e err =
    (isFlag e COMPILED \<and>
       (kind e = GLOBAL \<and> IDLBuilder_visitGlobal p b e = Inl err \<or>
        kind e = ENUM \<and> IDLBuilder_visitEnum p b e = Inl err \<or>
        kind e = NAMESPACE \<and> IDLBuilder_visitNamespace p b e = Inl err) \<or>
     kind e = FUNCTION_PROTOTYPE \<and>
       (\<exists>i \<in> set (instances e). \<exists>s.
          isFlag i COMPILED \<and> IDLBuilder_visitFunction p s i = Inl err))"

definition TSD_callbackFailed :: "Program \<Rightarrow> Builder \<Rightarrow> Element \<Rightarrow> error \<Rightarrow> bool" where
  "TSD_callbackFailed p b e err =
    (isFlag e COMPILED \<and>
       (kind e = GLOBAL \<and> TSDBuilder_visitGlobal p b e = Inl err \<or>
        kind e = ENUM \<and> TSDBuilder_visitEnum p b e = Inl err \<or>
        kind e = NAMESPACE \<and> TSDBuilder_visitNamespace p b e = Inl err) \<or>
     kind e = FUNCTION_PROTOTYPE \<and>
       (\<exists>i \<in> set (instances e). \<exists>s.
          isFlag i COMPILED \<and> TSDBuilder_visitFunction p s i = Inl err))"

text \<open>
  The text that each element of a list contributes when \<^verbatim>\<open>walk\<close> visits the list from
  the builder \<open>b\<close>: the fragments that the visit of the element has added to \<^verbatim>\<open>sb\<close>,
  joined. The list ends at the first visit that fails. A visit only appends to
  \<^verbatim>\<open>sb\<close> (lemmas \<open>IDLBuilder_visitElement_prefix\<close> and
  \<open>TSDBuilder_visitElement_prefix\<close> below), so what it has added is what follows the
  fragments that were there before.
\<close>

fun IDL_exportTexts :: "Program \<Rightarrow> Builder \<Rightarrow> Element list \<Rightarrow> string list" where
  "IDL_exportTexts p b [] = []"
| "IDL_exportTexts p b (e # es) =
    (case IDLBuilder_visitElement p b e of
       Inl err \<Rightarrow> []
     | Inr b' \<Rightarrow> concat (drop (length (sb b)) (sb b')) # IDL_exportTexts p b' es)"

fun TSD_exportTexts :: "Program \<Rightarrow> Builder \<Rightarrow> Element list \<Rightarrow> string list" where
  "TSD_exportTexts p b [] = []"
| "TSD_exportTexts p b (e # es) =
    (case TSDBuilder_visitElement p b e of
       Inl err \<Rightarrow> []
     | Inr b' \<Rightarrow> concat (drop (length (sb b)) (sb b')) # TSD_exportTexts p b' es)"

text \<open>The builder at the moment \<^verbatim>\<open>build()\<close> calls \<^verbatim>\<open>walk()\<close>, for a new builder.\<close>

definition IDL_walkStart :: Builder where
  "IDL_walkStart =
    (push newBuilder ''interface ASModule {\<newline>'')\<lparr>indentLevel := indentLevel newBuilder + 1\<rparr>"

definition TSD_prologue :: "string list" where
  "TSD_prologue =
    [''declare module ASModule {\<newline>'',
     ''  type i8 = number;\<newline>'',
     ''  type i16 = number;\<newline>'',
     ''  type i32 = number;\<newline>'',
     ''  type u8 = number;\<newline>'',
     ''  type u16 = number;\<newline>'',
     ''  type u32 = number;\<newline>'',
     ''  type f32 = number;\<newline>'',
     ''  type f64 = number;\<newline>'',
     ''  type bool = any;\<newline>'']"

definition TSD_walkStart :: Builder where
  "TSD_walkStart = (pushAll newBuilder TSD_prologue)\<lparr>indentLevel := indentLevel newBuilder + 1\<rparr>"

text \<open>
  Two calls of the static \<^verbatim>\<open>build(program)\<close>, one after the other: each constructs a
  builder of its own and runs \<^verbatim>\<open>build()\<close> on it.
\<close>

definition IDLBuilder_build_twice :: "Program \<Rightarrow> (error + string) \<times> (error + string)" where
  "IDLBuilder_build_twice p =
    (let first = IDLBuilder_build_method p newBuilder;
         second = IDLBuilder_build_method p newBuilder
     in (map_sum id fst first, map_sum id fst second))"

definition TSDBuilder_build_twice :: "Program \<Rightarrow> (error + string) \<times> (error + string)" where
  "TSDBuilder_build_twice p =
    (let first = TSDBuilder_build_method p newBuilder;
         second = TSDBuilder_build_method p newBuilder
     in (map_sum id fst first, map_sum id fst second))"

text \<open>
  The declarations of sections 4.2 and 4.3 of the specification, in its own words. Each
  line is prefixed by the current depth, in units of two blanks.
\<close>

definition indentation :: "int \<Rightarrow> string" where
  "indentation level = concat (replicate (nat level) ''  '')"












text \<open>
  The members of an element, none for \<^verbatim>\<open>null\<close>; those of them that are values of an
  enum; an enum all of whose members are values.
\<close>

definition membersOf :: "Element \<Rightarrow> (string \<times> Element) list" where
  "membersOf e = (case members e of None \<Rightarrow> [] | Some ms \<Rightarrow> ms)"





definition closing :: "int \<Rightarrow> string" where
  "closing level = indentation level @ ''}\<newline>''"


definition TSD_membersBlock :: "int \<Rightarrow> Element \<Rightarrow> string list \<Rightarrow> string" where
  "TSD_membersBlock level e texts =
    (if membersOf e = [] then []
     else indentation level @ ''namespace '' @ simpleName e @ '' {\<newline>'' @
          concat texts @ closing level)"



section \<open>Example export graphs\<close>

definition noSignature :: Signature where
  "noSignature =
    \<lparr>parameterTypes = [], getParameterName = (\<lambda>i. ''''), returnType = Type VOID\<rparr>"

definition mkGlobal ::
  "nat \<Rightarrow> string \<Rightarrow> CommonFlags set \<Rightarrow> TypeKind \<Rightarrow> ConstantValueKind \<Rightarrow> 64 word \<Rightarrow> Element"
  where
  "mkGlobal i n fl t ck v =
    Element i GLOBAL n fl None [] (Type t) ck v '''' 0 noSignature None"

definition mkEnumValue :: "nat \<Rightarrow> string \<Rightarrow> CommonFlags set \<Rightarrow> int \<Rightarrow> Element" where
  "mkEnumValue i n fl v =
    Element i ENUMVALUE n fl None [] (Type VOID) NONE 0 '''' v noSignature None"

definition mkContainer ::
  "nat \<Rightarrow> ElementKind \<Rightarrow> string \<Rightarrow> CommonFlags set \<Rightarrow> (string \<times> Element) list option
    \<Rightarrow> Element"
  where
  "mkContainer i k n fl ms =
    Element i k n fl ms [] (Type VOID) NONE 0 '''' 0 noSignature None"

definition mkFunction ::
  "nat \<Rightarrow> string \<Rightarrow> CommonFlags set \<Rightarrow> Signature \<Rightarrow> (string \<times> Element) list option
    \<Rightarrow> Element"
  where
  "mkFunction i n fl sg ms =
    Element i FUNCTION n fl ms [] (Type VOID) NONE 0 '''' 0 sg None"

definition mkPrototype :: "nat \<Rightarrow> ElementKind \<Rightarrow> string \<Rightarrow> Element list \<Rightarrow> Element" where
  "mkPrototype i k n is =
    Element i k n {} None is (Type VOID) NONE 0 '''' 0 noSignature None"

definition mkProgram :: "(string \<times> Element) list \<Rightarrow> Program" where
  "mkProgram es = \<lparr>moduleLevelExports = es, isWasm64 = False\<rparr>"

text \<open>An inlined global \<^verbatim>\<open>X\<close> of type \<^verbatim>\<open>i32\<close> with the constant 7.\<close>

definition ex_X :: Element where
  "ex_X = mkGlobal 1 ''X'' {COMPILED, INLINED} I32 INTEGER 7"

text \<open>An enum whose only value does not have the flag \<^verbatim>\<open>COMPILED\<close>.\<close>

definition ex_RED :: Element where
  "ex_RED = mkEnumValue 2 ''RED'' {} 0"

definition ex_Color :: Element where
  "ex_Color = mkContainer 3 ENUM ''Color'' {COMPILED} (Some [(''RED'', ex_RED)])"

text \<open>Function instances, without and with a member, and the prototype of the second.\<close>

definition ex_f :: Element where
  "ex_f = mkFunction 4 ''f'' {COMPILED} noSignature None"

definition ex_g :: Element where
  "ex_g = mkFunction 5 ''g'' {COMPILED} noSignature (Some [(''X'', ex_X)])"

definition ex_gProto :: Element where
  "ex_gProto = mkPrototype 6 FUNCTION_PROTOTYPE ''g'' [ex_g]"

text \<open>
  Namespaces: with one member, with none, and one that holds the first as a member.
\<close>

definition ex_N :: Element where
  "ex_N = mkContainer 7 NAMESPACE ''N'' {COMPILED} (Some [(''X'', ex_X)])"

definition ex_Empty :: Element where
  "ex_Empty = mkContainer 8 NAMESPACE ''Empty'' {COMPILED} (Some [])"

definition ex_Outer :: Element where
  "ex_Outer = mkContainer 20 NAMESPACE ''Outer'' {COMPILED} (Some [(''N'', ex_N)])"

text \<open>An enum with a value and a member that is not a value.\<close>

definition ex_Mixed :: Element where
  "ex_Mixed = mkContainer 9 ENUM ''Mixed'' {COMPILED}
     (Some [(''A'', mkEnumValue 10 ''A'' {COMPILED, INLINED} 0), (''X'', ex_X)])"

text \<open>
  Further globals: of type \<^verbatim>\<open>f64\<close>, of a type kind outside the table, and one that
  is not compiled.
\<close>

definition ex_Y :: Element where
  "ex_Y = mkGlobal 11 ''Y'' {COMPILED} F64 NONE 0"

definition ex_Z :: Element where
  "ex_Z = mkGlobal 12 ''Z'' {COMPILED} UNLISTED NONE 0"

definition ex_U :: Element where
  "ex_U = mkGlobal 14 ''U'' {} I32 NONE 0"

text \<open>An element of kind \<^verbatim>\<open>INTERFACE\<close>.\<close>

definition ex_I :: Element where
  "ex_I = mkContainer 13 INTERFACE ''I'' {COMPILED} None"

text \<open>
  Prototypes with two instances each, of which one is compiled: a function prototype
  and a class prototype.
\<close>

definition ex_h :: Element where
  "ex_h = mkFunction 15 ''h'' {} noSignature None"

definition ex_hProto :: Element where
  "ex_hProto = mkPrototype 16 FUNCTION_PROTOTYPE ''h'' [ex_f, ex_h]"

definition ex_C :: Element where
  "ex_C = mkContainer 17 CLASS ''C'' {COMPILED} None"

definition ex_D :: Element where
  "ex_D = mkContainer 18 CLASS ''D'' {} None"

definition ex_CProto :: Element where
  "ex_CProto = mkPrototype 19 CLASS_PROTOTYPE ''C'' [ex_D, ex_C]"

text \<open>A module with three exports, in this order.\<close>

definition ex_XYE :: Program where
  "ex_XYE = mkProgram [(''X'', ex_X), (''Y'', ex_Y), (''Empty'', ex_Empty)]"

text \<open>
  The scenarios of section 8 of the specification: an enum with the values
  \<^verbatim>\<open>RED = 0\<close> and \<^verbatim>\<open>GREEN = 1\<close>, and a function prototype with two compiled instances.
\<close>

definition ex_Color2 :: Element where
  "ex_Color2 = mkContainer 21 ENUM ''Color'' {COMPILED}
     (Some [(''RED'', mkEnumValue 22 ''RED'' {COMPILED, INLINED} 0),
            (''GREEN'', mkEnumValue 23 ''GREEN'' {COMPILED, INLINED} 1)])"

definition ex_maxI :: Element where
  "ex_maxI = mkFunction 24 ''max'' {COMPILED}
     \<lparr>parameterTypes = [Type I32, Type I32], getParameterName = (\<lambda>i. [''a'', ''b''] ! i),
      returnType = Type I32\<rparr> None"

definition ex_maxF :: Element where
  "ex_maxF = mkFunction 25 ''max'' {COMPILED}
     \<lparr>parameterTypes = [Type F64, Type F64], getParameterName = (\<lambda>i. [''a'', ''b''] ! i),
      returnType = Type F64\<rparr> None"

definition ex_max :: Element where
  "ex_max = mkPrototype 26 FUNCTION_PROTOTYPE ''max'' [ex_maxI, ex_maxF]"

text \<open>
  The builders that \<^verbatim>\<open>visitGlobal\<close> leaves after \<open>ex_X\<close>, from a new builder, and
  after \<open>ex_Y\<close> has then been visited as well.
\<close>

definition IDL_afterX :: Builder where
  "IDL_afterX =
    \<lparr>sb = ['''', ''const '', ''long'', '' '', ''X'', '' = '', ''7'', '';\<newline>''],
     seen = {1}, indentLevel = 0\<rparr>"

definition IDL_afterXY :: Builder where
  "IDL_afterXY =
    \<lparr>sb = ['''', ''const '', ''long'', '' '', ''X'', '' = '', ''7'', '';\<newline>'',
           '''', ''unrestricted double'', '' '', ''Y'', '';\<newline>''],
     seen = {1, 11}, indentLevel = 0\<rparr>"

definition TSD_afterX :: Builder where
  "TSD_afterX =
    \<lparr>sb = ['''', ''const '', ''X'', '': '', ''i32'', '';\<newline>''],
     seen = {1}, indentLevel = 0\<rparr>"

definition TSD_afterXY :: Builder where
  "TSD_afterXY =
    \<lparr>sb = ['''', ''const '', ''X'', '': '', ''i32'', '';\<newline>'',
           '''', ''Y'', '': '', ''f64'', '';\<newline>''],
     seen = {1, 11}, indentLevel = 0\<rparr>"

text \<open>
  Inlined globals \<^verbatim>\<open>X\<close> of type \<^verbatim>\<open>i32\<close> with the constant 7 that have a member of
  their own: the global \<open>ex_Y\<close>, and the enum \<open>ex_Mixed\<close>.
\<close>

definition ex_XY :: Element where
  "ex_XY = Element 27 GLOBAL ''X'' {COMPILED, INLINED} (Some [(''Y'', ex_Y)]) []
     (Type I32) INTEGER 7 '''' 0 noSignature None"

definition ex_XMixed :: Element where
  "ex_XMixed = Element 28 GLOBAL ''X'' {COMPILED, INLINED} (Some [(''Mixed'', ex_Mixed)]) []
     (Type I32) INTEGER 7 '''' 0 noSignature None"

lemmas ex_defs = noSignature_def mkGlobal_def mkEnumValue_def mkContainer_def mkFunction_def
  mkPrototype_def mkProgram_def ex_X_def ex_RED_def ex_Color_def ex_f_def ex_g_def
  ex_gProto_def ex_N_def ex_Empty_def ex_Outer_def ex_Mixed_def ex_Y_def ex_Z_def ex_U_def
  ex_I_def ex_h_def ex_hProto_def ex_C_def ex_D_def ex_CProto_def ex_XYE_def
  ex_Color2_def ex_maxI_def ex_maxF_def ex_max_def

section \<open>Lemmas\<close>

subsection \<open>The text accumulator\<close>

lemma push_sel [simp]:
  "sb (push b s) = sb b @ [s]"
  "seen (push b s) = seen b"
  "indentLevel (push b s) = indentLevel b"
  by (simp_all add: push_def)

lemma pushAll_sel [simp]:
  "sb (pushAll b ss) = sb b @ ss"
  "seen (pushAll b ss) = seen b"
  "indentLevel (pushAll b ss) = indentLevel b"
  by (simp_all add: pushAll_def)

lemma indent_sel [simp]:
  "sb (indent b l) = sb b @ [concat (replicate (nat l) ''  '')]"
  "seen (indent b l) = seen b"
  "indentLevel (indent b l) = indentLevel b"
  by (simp_all add: indent_def)

lemma i64_to_string_7: "i64_to_string 7 = ''7''"
  by (simp add: i64_to_string_def int_toString_def decimal.simps [of 7])

subsection \<open>Loops\<close>

lemma forEach_Inl:
  "forEach f b xs = Inl err \<Longrightarrow> \<exists>x \<in> set xs. \<exists>s. f s x = Inl err"
  by (induction xs arbitrary: b) (auto split: sum.splits)


text \<open>A loop whose body only appends to \<^verbatim>\<open>sb\<close> only appends to \<^verbatim>\<open>sb\<close>.\<close>

lemma forEach_prefix:
  assumes "\<And>s x s'. x \<in> set xs \<Longrightarrow> f s x = Inr s' \<Longrightarrow> prefix (sb s) (sb s')"
    and "forEach f b xs = Inr b'"
  shows "prefix (sb b) (sb b')"
  using assms
proof (induction xs arbitrary: b)
  case Nil
  then show ?case by simp
next
  case (Cons x xs)
  from Cons.prems(2) obtain b1 where 1: "f b x = Inr b1" and 2: "forEach f b1 xs = Inr b'"
    by (auto split: sum.splits)
  have "prefix (sb b) (sb b1)" using Cons.prems(1) [of x b b1] 1 by simp
  moreover have "prefix (sb b1) (sb b')"
  proof (rule Cons.IH)
    show "prefix (sb s) (sb s')" if "y \<in> set xs" "f s y = Inr s'" for y s s'
      using that Cons.prems(1) [of y s s'] by simp
  qed (fact 2)
  ultimately show ?case by (rule prefix_order.trans)
qed

lemma forEach_prefix2:
  assumes "forEach f b xs = Inr b'" and "prefix ys (sb b)"
    and "\<And>s x s'. x \<in> set xs \<Longrightarrow> f s x = Inr s' \<Longrightarrow> prefix (sb s) (sb s')"
  shows "prefix ys (sb b')"
  using assms(2) forEach_prefix [OF assms(3) assms(1)] by (rule prefix_order.trans)

subsection \<open>The callbacks that do not recurse\<close>

lemma IDLBuilder_visitClass_no_error: "IDLBuilder_visitClass b e \<noteq> Inl err"
  by (simp add: IDLBuilder_visitClass_def Let_def)

lemma TSDBuilder_visitClass_no_error: "TSDBuilder_visitClass b e \<noteq> Inl err"
  by (simp add: TSDBuilder_visitClass_def Let_def)

lemma IDL_enumValue_prefix:
  "prefix xs (sb b) \<Longrightarrow> prefix xs (sb (IDLBuilder_enumValue b entry))"
  by (simp add: IDLBuilder_enumValue_def Let_def)

lemma IDL_enumValues_prefix:
  "prefix xs (sb b) \<Longrightarrow> prefix xs (sb (foldl IDLBuilder_enumValue b ms))"
  by (induction ms arbitrary: b) (simp_all add: IDL_enumValue_prefix)

lemma IDL_visitGlobal_prefix:
  "IDLBuilder_visitGlobal p b e = Inr b' \<Longrightarrow> prefix (sb b) (sb b')"
  by (auto simp: IDLBuilder_visitGlobal_def Let_def
      split: if_splits sum.splits ConstantValueKind.splits)

lemma IDL_visitClass_prefix:
  "IDLBuilder_visitClass b e = Inr b' \<Longrightarrow> prefix (sb b) (sb b')"
  by (auto simp: IDLBuilder_visitClass_def Let_def split: if_splits)

lemma TSD_enumValue_prefix:
  "prefix xs (sb (fst st)) \<Longrightarrow> prefix xs (sb (fst (TSDBuilder_enumValue st entry)))"
  by (simp add: TSDBuilder_enumValue_def Let_def)

lemma TSD_enumValues_prefix:
  "prefix xs (sb (fst st)) \<Longrightarrow> prefix xs (sb (fst (foldl TSDBuilder_enumValue st ms)))"
  by (induction ms arbitrary: st) (simp_all add: TSD_enumValue_prefix)

lemma TSD_visitClass_prefix:
  "TSDBuilder_visitClass b e = Inr b' \<Longrightarrow> prefix (sb b) (sb b')"
  by (auto simp: TSDBuilder_visitClass_def Let_def simp del: prefix_snoc
      split: if_splits option.splits)

subsection \<open>Every visit only appends to the accumulator\<close>

text \<open>
  By induction on the size of the element: the callbacks of an element visit its
  members, the dispatcher the instances of a prototype, and both are smaller.
\<close>

lemma IDL_prefix_all:
  "(\<forall>p b b'. IDLBuilder_visitElement p b e = Inr b' \<longrightarrow> prefix (sb b) (sb b')) \<and>
   (\<forall>p b b'. IDLBuilder_visitEnum p b e = Inr b' \<longrightarrow> prefix (sb b) (sb b')) \<and>
   (\<forall>p b b'. IDLBuilder_visitFunction p b e = Inr b' \<longrightarrow> prefix (sb b) (sb b')) \<and>
   (\<forall>p b b'. IDLBuilder_visitNamespace p b e = Inr b' \<longrightarrow> prefix (sb b) (sb b'))"
proof (induction e rule: measure_induct_rule [of size])
  case (less e)
  have mem: "prefix (sb s) (sb s')"
    if "members e = Some ms" "(n, m) \<in> set ms" "IDLBuilder_visitElement p s m = Inr s'"
    for ms n m p s s'
  proof -
    have "size m < size e" using that(1,2) by (force intro: size_members)
    then show ?thesis using less that(3) by blast
  qed
  have inst: "prefix (sb s) (sb s')"
    if "m \<in> set (instances e)" "IDLBuilder_visitFunction p s m = Inr s'" for m p s s'
    using less [OF size_instances [OF that(1)]] that(2) by blast
  have enum: "prefix (sb b) (sb b')" if "IDLBuilder_visitEnum p b e = Inr b'" for p b b'
    using that
    apply (auto simp: IDLBuilder_visitEnum.simps Let_def simp del: prefix_snoc
        split: sum.splits if_splits option.splits
        elim!: forEach_prefix2 intro!: prefix_prefix IDL_enumValues_prefix)
    apply (erule (2) mem)
    done
  have func: "prefix (sb b) (sb b')" if "IDLBuilder_visitFunction p b e = Inr b'" for p b b'
    using that
    apply (auto simp: IDLBuilder_visitFunction.simps Let_def simp del: prefix_snoc
        split: sum.splits if_splits option.splits
        elim!: forEach_prefix2 intro!: prefix_prefix)
    apply (erule (2) mem)
    done
  have ns: "prefix (sb b) (sb b')" if "IDLBuilder_visitNamespace p b e = Inr b'" for p b b'
    using that
    apply (auto simp: IDLBuilder_visitNamespace.simps Let_def simp del: prefix_snoc
        split: sum.splits if_splits option.splits
        elim!: forEach_prefix2 intro!: prefix_prefix)
    apply (erule (2) mem)
    done
  have el: "prefix (sb b) (sb b')" if "IDLBuilder_visitElement p b e = Inr b'" for p b b'
    using that
    by (auto simp: IDLBuilder_visitElement.simps
        split: ElementKind.splits if_splits
        elim!: forEach_prefix2 intro: IDL_visitGlobal_prefix IDL_visitClass_prefix enum ns inst)
  show ?case using el enum func ns by blast
qed

lemma IDLBuilder_visitElement_prefix:
  "IDLBuilder_visitElement p b e = Inr b' \<Longrightarrow> prefix (sb b) (sb b')"
  using IDL_prefix_all by blast

lemma TSD_prefix_all:
  "(\<forall>p b b'. TSDBuilder_visitElement p b e = Inr b' \<longrightarrow> prefix (sb b) (sb b')) \<and>
   (\<forall>p b b'. TSDBuilder_visitGlobal p b e = Inr b' \<longrightarrow> prefix (sb b) (sb b')) \<and>
   (\<forall>p b b'. TSDBuilder_visitEnum p b e = Inr b' \<longrightarrow> prefix (sb b) (sb b')) \<and>
   (\<forall>p b b'. TSDBuilder_visitFunction p b e = Inr b' \<longrightarrow> prefix (sb b) (sb b')) \<and>
   (\<forall>p b b'. TSDBuilder_visitNamespace p b e = Inr b' \<longrightarrow> prefix (sb b) (sb b'))"
proof (induction e rule: measure_induct_rule [of size])
  case (less e)
  have mem: "prefix (sb s) (sb s')"
    if "members e = Some ms" "(n, m) \<in> set ms" "TSDBuilder_visitElement p s m = Inr s'"
    for ms n m p s s'
  proof -
    have "size m < size e" using that(1,2) by (force intro: size_members)
    then show ?thesis using less that(3) by blast
  qed
  have inst: "prefix (sb s) (sb s')"
    if "m \<in> set (instances e)" "TSDBuilder_visitFunction p s m = Inr s'" for m p s s'
    using less [OF size_instances [OF that(1)]] that(2) by blast
  have ns: "prefix ys (sb b')"
    if "TSDBuilder_visitNamespace p b e = Inr b'" "prefix ys (sb b)" for p b b' ys
    using that
    apply (auto simp: TSDBuilder_visitNamespace.simps Let_def simp del: prefix_snoc
        split: sum.splits if_splits option.splits
        elim!: forEach_prefix2 intro!: prefix_prefix)
    apply (erule (2) mem)
    done
  have glob: "prefix (sb b) (sb b')" if "TSDBuilder_visitGlobal p b e = Inr b'" for p b b'
    using that
    by (auto simp: TSDBuilder_visitGlobal.simps Let_def simp del: prefix_snoc
        split: sum.splits if_splits elim!: ns intro!: prefix_prefix)
  have enum: "prefix (sb b) (sb b')" if "TSDBuilder_visitEnum p b e = Inr b'" for p b b'
    using that
    by (auto simp: TSDBuilder_visitEnum.simps Let_def simp del: prefix_snoc
        split: sum.splits if_splits option.splits
        elim!: ns intro!: prefix_prefix TSD_enumValues_prefix)
  have func: "prefix (sb b) (sb b')" if "TSDBuilder_visitFunction p b e = Inr b'" for p b b'
    using that
    by (auto simp: TSDBuilder_visitFunction.simps Let_def simp del: prefix_snoc
        split: sum.splits if_splits
        elim!: ns forEach_prefix2 intro!: prefix_prefix)
  have el: "prefix (sb b) (sb b')" if "TSDBuilder_visitElement p b e = Inr b'" for p b b'
    using that
    by (auto simp: TSDBuilder_visitElement.simps
        split: ElementKind.splits if_splits
        elim!: forEach_prefix2 intro: TSD_visitClass_prefix glob enum ns inst)
  show ?case using el glob enum func ns [OF _ prefix_order.refl] by blast
qed

lemma TSDBuilder_visitElement_prefix:
  "TSDBuilder_visitElement p b e = Inr b' \<Longrightarrow> prefix (sb b) (sb b')"
  using TSD_prefix_all by blast

subsection \<open>The text of a walk is the texts of its elements, in order\<close>

lemma IDL_walk_texts:
  "forEach (IDLBuilder_visitElement p) b es = Inr b' \<Longrightarrow>
    concat (sb b') = concat (sb b) @ concat (IDL_exportTexts p b es) \<and>
    length (IDL_exportTexts p b es) = length es"
proof (induction es arbitrary: b)
  case Nil
  then show ?case by simp
next
  case (Cons e es)
  from Cons.prems obtain b1 where 1: "IDLBuilder_visitElement p b e = Inr b1"
    and 2: "forEach (IDLBuilder_visitElement p) b1 es = Inr b'"
    by (auto split: sum.splits)
  from IDLBuilder_visitElement_prefix [OF 1]
  have "sb b1 = sb b @ drop (length (sb b)) (sb b1)"
    by (auto simp: prefix_def)
  then have "concat (sb b1) = concat (sb b) @ concat (drop (length (sb b)) (sb b1))"
    by (metis concat_append)
  with Cons.IH [OF 2] 1 show ?case by simp
qed

lemma TSD_walk_texts:
  "forEach (TSDBuilder_visitElement p) b es = Inr b' \<Longrightarrow>
    concat (sb b') = concat (sb b) @ concat (TSD_exportTexts p b es) \<and>
    length (TSD_exportTexts p b es) = length es"
proof (induction es arbitrary: b)
  case Nil
  then show ?case by simp
next
  case (Cons e es)
  from Cons.prems obtain b1 where 1: "TSDBuilder_visitElement p b e = Inr b1"
    and 2: "forEach (TSDBuilder_visitElement p) b1 es = Inr b'"
    by (auto split: sum.splits)
  from TSDBuilder_visitElement_prefix [OF 1]
  have "sb b1 = sb b @ drop (length (sb b)) (sb b1)"
    by (auto simp: prefix_def)
  then have "concat (sb b1) = concat (sb b) @ concat (drop (length (sb b)) (sb b1))"
    by (metis concat_append)
  with Cons.IH [OF 2] 1 show ?case by simp
qed

subsection \<open>The depth counter\<close>

lemma forEach_level:
  assumes "\<And>s x s'. x \<in> set xs \<Longrightarrow> f s x = Inr s' \<Longrightarrow> indentLevel s' = indentLevel s"
    and "forEach f b xs = Inr b'"
  shows "indentLevel b' = indentLevel b"
  using assms
proof (induction xs arbitrary: b)
  case Nil
  then show ?case by simp
next
  case (Cons x xs)
  from Cons.prems(2) obtain b1 where 1: "f b x = Inr b1" and 2: "forEach f b1 xs = Inr b'"
    by (auto split: sum.splits)
  have "indentLevel b1 = indentLevel b" using Cons.prems(1) [of x b b1] 1 by simp
  moreover have "indentLevel b' = indentLevel b1"
  proof (rule Cons.IH)
    show "indentLevel s' = indentLevel s" if "y \<in> set xs" "f s y = Inr s'" for y s s'
      using that Cons.prems(1) [of y s s'] by simp
  qed (fact 2)
  ultimately show ?case by simp
qed

lemma forEach_level2:
  assumes "forEach f b xs = Inr b'"
    and "\<And>s x s'. x \<in> set xs \<Longrightarrow> f s x = Inr s' \<Longrightarrow> indentLevel s' = indentLevel s"
  shows "indentLevel b' = indentLevel b"
  using forEach_level [OF assms(2) assms(1)] .

lemma TSD_enumValue_level:
  "indentLevel (fst (TSDBuilder_enumValue st entry)) = indentLevel (fst st)"
  by (simp add: TSDBuilder_enumValue_def Let_def)

lemma TSD_enumValues_level:
  "indentLevel (fst (foldl TSDBuilder_enumValue st ms)) = indentLevel (fst st)"
  by (induction ms arbitrary: st) (simp_all add: TSD_enumValue_level)

lemma TSD_visitClass_level:
  "TSDBuilder_visitClass b e = Inr b' \<Longrightarrow> indentLevel b' = indentLevel b"
  by (auto simp: TSDBuilder_visitClass_def Let_def split: if_splits option.splits)

lemma TSD_level_all:
  "(\<forall>p b b'. TSDBuilder_visitElement p b e = Inr b' \<longrightarrow> indentLevel b' = indentLevel b) \<and>
   (\<forall>p b b'. TSDBuilder_visitGlobal p b e = Inr b' \<longrightarrow> indentLevel b' = indentLevel b) \<and>
   (\<forall>p b b'. TSDBuilder_visitEnum p b e = Inr b' \<longrightarrow> indentLevel b' = indentLevel b) \<and>
   (\<forall>p b b'. TSDBuilder_visitFunction p b e = Inr b' \<longrightarrow> indentLevel b' = indentLevel b) \<and>
   (\<forall>p b b'. TSDBuilder_visitNamespace p b e = Inr b' \<longrightarrow> indentLevel b' = indentLevel b)"
proof (induction e rule: measure_induct_rule [of size])
  case (less e)
  have mem: "indentLevel s' = indentLevel s"
    if "members e = Some ms" "(n, m) \<in> set ms" "TSDBuilder_visitElement p s m = Inr s'"
    for ms n m p s s'
  proof -
    have "size m < size e" using that(1,2) by (force intro: size_members)
    then show ?thesis using less that(3) by blast
  qed
  have inst: "indentLevel s' = indentLevel s"
    if "m \<in> set (instances e)" "TSDBuilder_visitFunction p s m = Inr s'" for m p s s'
    using less [OF size_instances [OF that(1)]] that(2) by blast
  have ns: "indentLevel b' = indentLevel b"
    if "TSDBuilder_visitNamespace p b e = Inr b'" for p b b'
  proof (cases "members e")
    case None
    then show ?thesis using that by (simp add: TSDBuilder_visitNamespace.simps)
  next
    case (Some ms)
    show ?thesis
    proof (cases "ms = []")
      case True
      then show ?thesis using that Some by (simp add: TSDBuilder_visitNamespace.simps)
    next
      case False
      from that Some False obtain b2 where
        run: "forEach (TSDBuilder_visitElement p)
               (pushAll (indent b (indentLevel b)\<lparr>indentLevel := indentLevel b + 1\<rparr>)
                 [''namespace '', simpleName e, '' {\<newline>'']) (map snd ms) = Inr b2"
        and b': "b' = push (indent (b2\<lparr>indentLevel := indentLevel b2 - 1\<rparr>) (indentLevel b2 - 1)) ''}\<newline>''"
        by (auto simp: TSDBuilder_visitNamespace.simps Let_def split: sum.splits)
      have "indentLevel b2 = indentLevel b + 1"
        using forEach_level2 [OF run] mem [OF Some] by force
      then show ?thesis by (simp add: b')
    qed
  qed
  have glob: "indentLevel b' = indentLevel b" if "TSDBuilder_visitGlobal p b e = Inr b'" for p b b'
    using that
    by (auto simp: TSDBuilder_visitGlobal.simps Let_def split: sum.splits if_splits dest!: ns)
  have enum: "indentLevel b' = indentLevel b" if "TSDBuilder_visitEnum p b e = Inr b'" for p b b'
    using that
    by (auto simp: TSDBuilder_visitEnum.simps Let_def TSD_enumValues_level
        split: sum.splits if_splits option.splits dest!: ns)
  have func: "indentLevel b' = indentLevel b" if "TSDBuilder_visitFunction p b e = Inr b'" for p b b'
    using that
    apply (auto simp: TSDBuilder_visitFunction.simps Let_def
        split: sum.splits if_splits dest!: ns)
    apply (drule forEach_level2)
     apply (auto split: sum.splits)
    done
  have el: "indentLevel b' = indentLevel b" if "TSDBuilder_visitElement p b e = Inr b'" for p b b'
    using that
    by (auto simp: TSDBuilder_visitElement.simps
        split: ElementKind.splits if_splits
        elim!: forEach_level2 intro: TSD_visitClass_level glob enum ns inst)
  show ?case using el glob enum func ns by blast
qed

lemma forEach_level_le:
  assumes "forEach f b xs = Inr b'"
    and "\<And>s x s'. x \<in> set xs \<Longrightarrow> f s x = Inr s' \<Longrightarrow> indentLevel s' \<le> indentLevel s"
  shows "indentLevel b' \<le> indentLevel b"
  using assms
proof (induction xs arbitrary: b)
  case Nil
  then show ?case by simp
next
  case (Cons x xs)
  from Cons.prems(1) obtain b1 where 1: "f b x = Inr b1" and 2: "forEach f b1 xs = Inr b'"
    by (auto split: sum.splits)
  have "indentLevel b1 \<le> indentLevel b" using Cons.prems(2) [of x b b1] 1 by simp
  moreover have "indentLevel b' \<le> indentLevel b1"
  proof (rule Cons.IH [OF 2])
    show "indentLevel s' \<le> indentLevel s" if "y \<in> set xs" "f s y = Inr s'" for y s s'
      using that Cons.prems(2) [of y s s'] by simp
  qed
  ultimately show ?case by simp
qed

lemma forEach_level_le2:
  assumes "forEach f b xs = Inr b'" and "indentLevel b \<le> k"
    and "\<And>s x s'. x \<in> set xs \<Longrightarrow> f s x = Inr s' \<Longrightarrow> indentLevel s' \<le> indentLevel s"
  shows "indentLevel b' \<le> k"
proof -
  have "indentLevel b' \<le> indentLevel b"
    by (rule forEach_level_le [OF assms(1)]) (rule assms(3))
  with assms(2) show ?thesis by simp
qed

lemma level_pred_le: "(a :: int) \<le> k + 1 \<Longrightarrow> a - 1 \<le> k"
  by simp

lemma IDL_enumValue_level:
  "indentLevel (IDLBuilder_enumValue b entry) = indentLevel b"
  by (simp add: IDLBuilder_enumValue_def Let_def)

lemma IDL_enumValues_level:
  "indentLevel (foldl IDLBuilder_enumValue b ms) = indentLevel b"
  by (induction ms arbitrary: b) (simp_all add: IDL_enumValue_level)

lemma IDL_visitGlobal_level:
  "IDLBuilder_visitGlobal p b e = Inr b' \<Longrightarrow> indentLevel b' = indentLevel b"
  by (auto simp: IDLBuilder_visitGlobal_def Let_def
      split: if_splits sum.splits ConstantValueKind.splits)

lemma IDL_visitClass_level:
  "IDLBuilder_visitClass b e = Inr b' \<Longrightarrow> indentLevel b' = indentLevel b"
  by (auto simp: IDLBuilder_visitClass_def Let_def split: if_splits)

lemma IDL_level_all:
  "(\<forall>p b b'. IDLBuilder_visitElement p b e = Inr b' \<longrightarrow> indentLevel b' \<le> indentLevel b) \<and>
   (\<forall>p b b'. IDLBuilder_visitEnum p b e = Inr b' \<longrightarrow> indentLevel b' \<le> indentLevel b) \<and>
   (\<forall>p b b'. IDLBuilder_visitFunction p b e = Inr b' \<longrightarrow> indentLevel b' \<le> indentLevel b) \<and>
   (\<forall>p b b'. IDLBuilder_visitNamespace p b e = Inr b' \<longrightarrow> indentLevel b' \<le> indentLevel b)"
proof (induction e rule: measure_induct_rule [of size])
  case (less e)
  have mem: "indentLevel s' \<le> indentLevel s"
    if "members e = Some ms" "(n, m) \<in> set ms" "IDLBuilder_visitElement p s m = Inr s'"
    for ms n m p s s'
  proof -
    have "size m < size e" using that(1,2) by (force intro: size_members)
    then show ?thesis using less that(3) by blast
  qed
  have inst: "indentLevel s' \<le> indentLevel s"
    if "m \<in> set (instances e)" "IDLBuilder_visitFunction p s m = Inr s'" for m p s s'
    using less [OF size_instances [OF that(1)]] that(2) by blast
  have enum: "indentLevel b' \<le> indentLevel b" if "IDLBuilder_visitEnum p b e = Inr b'" for p b b'
    using that
    apply (auto simp: IDLBuilder_visitEnum.simps Let_def IDL_enumValues_level
        split: sum.splits if_splits option.splits
        elim!: forEach_level_le2 intro!: level_pred_le)
    apply (erule (2) mem)
    done
  have func: "indentLevel b' \<le> indentLevel b" if "IDLBuilder_visitFunction p b e = Inr b'" for p b b'
    using that
    apply (auto simp: IDLBuilder_visitFunction.simps Let_def
        split: sum.splits if_splits option.splits
        elim!: forEach_level_le2 intro!: level_pred_le)
    apply (erule (2) mem)
    done
  have ns: "indentLevel b' \<le> indentLevel b" if "IDLBuilder_visitNamespace p b e = Inr b'" for p b b'
    using that
    apply (auto simp: IDLBuilder_visitNamespace.simps Let_def
        split: sum.splits if_splits option.splits
        elim!: forEach_level_le2 intro!: level_pred_le)
    apply (erule (2) mem)
    done
  have el: "indentLevel b' \<le> indentLevel b" if "IDLBuilder_visitElement p b e = Inr b'" for p b b'
    using that
    by (auto simp: IDLBuilder_visitElement.simps
        split: ElementKind.splits if_splits
        elim!: forEach_level_le2
        intro: enum ns inst
          order_eq_refl [OF IDL_visitGlobal_level] order_eq_refl [OF IDL_visitClass_level])
  show ?case using el enum func ns by blast
qed

subsection \<open>The visited set\<close>

lemma forEach_seen:
  assumes "forEach f b xs = Inr b'" and "i \<in> seen b"
    and "\<And>s x s' j. x \<in> set xs \<Longrightarrow> f s x = Inr s' \<Longrightarrow> j \<in> seen s \<Longrightarrow> j \<in> seen s'"
  shows "i \<in> seen b'"
  using assms
proof (induction xs arbitrary: b)
  case Nil
  then show ?case by simp
next
  case (Cons x xs)
  from Cons.prems(1) obtain b1 where 1: "f b x = Inr b1" and 2: "forEach f b1 xs = Inr b'"
    by (auto split: sum.splits)
  have "i \<in> seen b1" using Cons.prems(3) [of x b b1 i] 1 Cons.prems(2) by simp
  with 2 show ?case
  proof (rule Cons.IH)
    show "j \<in> seen s'" if "y \<in> set xs" "f s y = Inr s'" "j \<in> seen s" for y s s' j
      using that Cons.prems(3) [of y s s' j] by simp
  qed
qed

lemma IDL_enumValue_seen: "seen (IDLBuilder_enumValue b entry) = seen b"
  by (simp add: IDLBuilder_enumValue_def Let_def)

lemma IDL_enumValues_seen: "seen (foldl IDLBuilder_enumValue b ms) = seen b"
  by (induction ms arbitrary: b) (simp_all add: IDL_enumValue_seen)

lemma IDL_visitGlobal_seen:
  "IDLBuilder_visitGlobal p b e = Inr b' \<Longrightarrow> seen b' = insert (eid e) (seen b)"
  by (auto simp: IDLBuilder_visitGlobal_def Let_def
      split: if_splits sum.splits ConstantValueKind.splits)

lemma IDL_visitClass_seen:
  "IDLBuilder_visitClass b e = Inr b' \<Longrightarrow> seen b' = insert (eid e) (seen b)"
  by (auto simp: IDLBuilder_visitClass_def Let_def split: if_splits)

lemma IDL_seen_all:
  "(\<forall>p b b' i. IDLBuilder_visitElement p b e = Inr b' \<longrightarrow> i \<in> seen b \<longrightarrow> i \<in> seen b') \<and>
   (\<forall>p b b' i. IDLBuilder_visitEnum p b e = Inr b' \<longrightarrow>
      i \<in> insert (eid e) (seen b) \<longrightarrow> i \<in> seen b') \<and>
   (\<forall>p b b' i. IDLBuilder_visitFunction p b e = Inr b' \<longrightarrow>
      i \<in> insert (eid e) (seen b) \<longrightarrow> i \<in> seen b') \<and>
   (\<forall>p b b' i. IDLBuilder_visitNamespace p b e = Inr b' \<longrightarrow>
      i \<in> insert (eid e) (seen b) \<longrightarrow> i \<in> seen b')"
proof (induction e rule: measure_induct_rule [of size])
  case (less e)
  have mem: "j \<in> seen s'"
    if "members e = Some ms" "(n, m) \<in> set ms" "IDLBuilder_visitElement p s m = Inr s'"
      "j \<in> seen s"
    for ms n m p s s' j
  proof -
    have "size m < size e" using that(1,2) by (force intro: size_members)
    then show ?thesis using less that(3,4) by blast
  qed
  have inst: "j \<in> seen s'"
    if "m \<in> set (instances e)" "IDLBuilder_visitFunction p s m = Inr s'" "j \<in> seen s"
    for m p s s' j
    using less [OF size_instances [OF that(1)]] that(2,3) by blast
  have enum: "i \<in> seen b'"
    if "IDLBuilder_visitEnum p b e = Inr b'" "i \<in> insert (eid e) (seen b)" for p b b' i
    using that
    apply (auto simp: IDLBuilder_visitEnum.simps Let_def IDL_enumValues_seen
        split: sum.splits if_splits option.splits
        elim!: forEach_seen)
      apply (erule (3) mem)+
    done
  have func: "i \<in> seen b'"
    if "IDLBuilder_visitFunction p b e = Inr b'" "i \<in> insert (eid e) (seen b)" for p b b' i
    using that
    apply (auto simp: IDLBuilder_visitFunction.simps Let_def
        split: sum.splits if_splits option.splits
        elim!: forEach_seen)
      apply (erule (3) mem)+
    done
  have ns: "i \<in> seen b'"
    if "IDLBuilder_visitNamespace p b e = Inr b'" "i \<in> insert (eid e) (seen b)" for p b b' i
    using that
    apply (auto simp: IDLBuilder_visitNamespace.simps Let_def
        split: sum.splits if_splits option.splits
        elim!: forEach_seen)
      apply (erule (3) mem)+
    done
  have el: "i \<in> seen b'" if "IDLBuilder_visitElement p b e = Inr b'" "i \<in> seen b" for p b b' i
    using that
    by (auto simp: IDLBuilder_visitElement.simps
        split: ElementKind.splits if_splits
        elim!: forEach_seen
        dest!: IDL_visitGlobal_seen IDL_visitClass_seen intro: enum ns inst)
  show ?case using el enum func ns by blast
qed

lemma IDLBuilder_visitElement_seen_mono:
  "IDLBuilder_visitElement p b e = Inr b' \<Longrightarrow> i \<in> seen b \<Longrightarrow> i \<in> seen b'"
  using IDL_seen_all by blast

lemma IDL_walk_seen_mono:
  "forEach (IDLBuilder_visitElement p) b es = Inr b' \<Longrightarrow> i \<in> seen b \<Longrightarrow> i \<in> seen b'"
  by (erule forEach_seen) (auto intro: IDLBuilder_visitElement_seen_mono)

lemma IDL_callbacks_mark:
  "IDLBuilder_visitGlobal p b e = Inr b' \<Longrightarrow> eid e \<in> seen b'"
  "IDLBuilder_visitEnum p b e = Inr b' \<Longrightarrow> eid e \<in> seen b'"
  "IDLBuilder_visitFunction p b e = Inr b' \<Longrightarrow> eid e \<in> seen b'"
  "IDLBuilder_visitClass b e = Inr b' \<Longrightarrow> eid e \<in> seen b'"
  "IDLBuilder_visitNamespace p b e = Inr b' \<Longrightarrow> eid e \<in> seen b'"
  using IDL_seen_all [of e] IDL_visitGlobal_seen [of p b e b'] IDL_visitClass_seen [of b e b']
  by blast+

lemma IDL_seen_is_skipped:
  assumes "eid e \<in> seen b"
  shows "IDLBuilder_visitGlobal p b e = Inr b" "IDLBuilder_visitEnum p b e = Inr b"
    "IDLBuilder_visitFunction p b e = Inr b" "IDLBuilder_visitClass b e = Inr b"
    "IDLBuilder_visitNamespace p b e = Inr b"
  using assms
  by (simp_all add: IDLBuilder_visitGlobal_def IDLBuilder_visitEnum.simps
      IDLBuilder_visitFunction.simps IDLBuilder_visitClass_def IDLBuilder_visitNamespace.simps)

lemma TSD_enumValue_seen: "i \<in> seen (fst st) \<Longrightarrow> i \<in> seen (fst (TSDBuilder_enumValue st entry))"
  by (simp add: TSDBuilder_enumValue_def Let_def)

lemma TSD_enumValues_seen:
  "i \<in> seen (fst st) \<Longrightarrow> i \<in> seen (fst (foldl TSDBuilder_enumValue st ms))"
  by (induction ms arbitrary: st) (simp_all add: TSD_enumValue_seen)

lemma TSD_visitClass_seen:
  "TSDBuilder_visitClass b e = Inr b' \<Longrightarrow> seen b' = insert (eid e) (seen b)"
  by (auto simp: TSDBuilder_visitClass_def Let_def split: if_splits option.splits)

lemma TSD_seen_all:
  "(\<forall>p b b' i. TSDBuilder_visitElement p b e = Inr b' \<longrightarrow> i \<in> seen b \<longrightarrow> i \<in> seen b') \<and>
   (\<forall>p b b' i. TSDBuilder_visitGlobal p b e = Inr b' \<longrightarrow>
      i \<in> insert (eid e) (seen b) \<longrightarrow> i \<in> seen b') \<and>
   (\<forall>p b b' i. TSDBuilder_visitEnum p b e = Inr b' \<longrightarrow>
      i \<in> insert (eid e) (seen b) \<longrightarrow> i \<in> seen b') \<and>
   (\<forall>p b b' i. TSDBuilder_visitFunction p b e = Inr b' \<longrightarrow>
      i \<in> insert (eid e) (seen b) \<longrightarrow> i \<in> seen b') \<and>
   (\<forall>p b b' i. TSDBuilder_visitNamespace p b e = Inr b' \<longrightarrow> i \<in> seen b \<longrightarrow> i \<in> seen b')"
proof (induction e rule: measure_induct_rule [of size])
  case (less e)
  have mem: "j \<in> seen s'"
    if "members e = Some ms" "(n, m) \<in> set ms" "TSDBuilder_visitElement p s m = Inr s'"
      "j \<in> seen s"
    for ms n m p s s' j
  proof -
    have "size m < size e" using that(1,2) by (force intro: size_members)
    from less [OF this]
    have "\<forall>p b b' i. TSDBuilder_visitElement p b m = Inr b' \<longrightarrow> i \<in> seen b \<longrightarrow> i \<in> seen b'"
      by (rule conjunct1)
    then show ?thesis using that(3,4) by blast
  qed
  have inst: "j \<in> seen s'"
    if "m \<in> set (instances e)" "TSDBuilder_visitFunction p s m = Inr s'" "j \<in> seen s"
    for m p s s' j
  proof -
    from less [OF size_instances [OF that(1)]]
    have "\<forall>p b b' i. TSDBuilder_visitFunction p b m = Inr b' \<longrightarrow>
        i \<in> insert (eid m) (seen b) \<longrightarrow> i \<in> seen b'"
      by blast
    then show ?thesis using that(2,3) by blast
  qed
  have ns: "i \<in> seen b'"
    if "TSDBuilder_visitNamespace p b e = Inr b'" "i \<in> seen b" for p b b' i
    using that
    apply (auto simp: TSDBuilder_visitNamespace.simps Let_def
        split: sum.splits if_splits option.splits
        elim!: forEach_seen)
    apply (erule (3) mem)
    done
  have glob: "i \<in> seen b'"
    if "TSDBuilder_visitGlobal p b e = Inr b'" "i \<in> insert (eid e) (seen b)" for p b b' i
    using that
    by (auto simp: TSDBuilder_visitGlobal.simps Let_def
        split: sum.splits if_splits elim!: ns)
  have enum: "i \<in> seen b'"
    if "TSDBuilder_visitEnum p b e = Inr b'" "i \<in> insert (eid e) (seen b)" for p b b' i
    using that
    by (auto simp: TSDBuilder_visitEnum.simps Let_def
        split: sum.splits if_splits option.splits
        elim!: ns intro!: TSD_enumValues_seen)
  have func: "i \<in> seen b'"
    if "TSDBuilder_visitFunction p b e = Inr b'" "i \<in> insert (eid e) (seen b)" for p b b' i
    using that
    by (auto simp: TSDBuilder_visitFunction.simps Let_def
        split: sum.splits if_splits
        elim!: ns forEach_seen)
  have el: "i \<in> seen b'" if "TSDBuilder_visitElement p b e = Inr b'" "i \<in> seen b" for p b b' i
    using that
    by (auto simp: TSDBuilder_visitElement.simps
        split: ElementKind.splits if_splits
        elim!: forEach_seen
        dest!: TSD_visitClass_seen intro: glob enum ns inst)
  show ?case using el glob enum func ns by blast
qed

lemma TSDBuilder_visitElement_seen_mono:
  "TSDBuilder_visitElement p b e = Inr b' \<Longrightarrow> i \<in> seen b \<Longrightarrow> i \<in> seen b'"
proof -
  from TSD_seen_all [of e]
  have "\<forall>p b b' i. TSDBuilder_visitElement p b e = Inr b' \<longrightarrow> i \<in> seen b \<longrightarrow> i \<in> seen b'"
    by (rule conjunct1)
  then show "TSDBuilder_visitElement p b e = Inr b' \<Longrightarrow> i \<in> seen b \<Longrightarrow> i \<in> seen b'"
    by blast
qed

lemma TSD_walk_seen_mono:
  "forEach (TSDBuilder_visitElement p) b es = Inr b' \<Longrightarrow> i \<in> seen b \<Longrightarrow> i \<in> seen b'"
  by (erule forEach_seen) (auto intro: TSDBuilder_visitElement_seen_mono)

lemma TSD_callbacks_mark:
  "TSDBuilder_visitGlobal p b e = Inr b' \<Longrightarrow> eid e \<in> seen b'"
  "TSDBuilder_visitEnum p b e = Inr b' \<Longrightarrow> eid e \<in> seen b'"
  "TSDBuilder_visitFunction p b e = Inr b' \<Longrightarrow> eid e \<in> seen b'"
  "TSDBuilder_visitClass b e = Inr b' \<Longrightarrow> eid e \<in> seen b'"
proof -
  note all = TSD_seen_all [of e]
  from all have g: "\<forall>p b b' i. TSDBuilder_visitGlobal p b e = Inr b' \<longrightarrow>
      i \<in> insert (eid e) (seen b) \<longrightarrow> i \<in> seen b'"
    by (elim conjE)
  from all have n: "\<forall>p b b' i. TSDBuilder_visitEnum p b e = Inr b' \<longrightarrow>
      i \<in> insert (eid e) (seen b) \<longrightarrow> i \<in> seen b'"
    by (elim conjE)
  from all have f: "\<forall>p b b' i. TSDBuilder_visitFunction p b e = Inr b' \<longrightarrow>
      i \<in> insert (eid e) (seen b) \<longrightarrow> i \<in> seen b'"
    by (elim conjE)
  show "TSDBuilder_visitGlobal p b e = Inr b' \<Longrightarrow> eid e \<in> seen b'"
    using g by blast
  show "TSDBuilder_visitEnum p b e = Inr b' \<Longrightarrow> eid e \<in> seen b'"
    using n by blast
  show "TSDBuilder_visitFunction p b e = Inr b' \<Longrightarrow> eid e \<in> seen b'"
    using f by blast
  show "TSDBuilder_visitClass b e = Inr b' \<Longrightarrow> eid e \<in> seen b'"
    by (drule TSD_visitClass_seen) simp
qed

lemma TSD_seen_is_skipped:
  assumes "eid e \<in> seen b"
  shows "TSDBuilder_visitGlobal p b e = Inr b" "TSDBuilder_visitEnum p b e = Inr b"
    "TSDBuilder_visitFunction p b e = Inr b" "TSDBuilder_visitClass b e = Inr b"
  using assms
  by (simp_all add: TSDBuilder_visitGlobal.simps TSDBuilder_visitEnum.simps
      TSDBuilder_visitFunction.simps TSDBuilder_visitClass_def)

subsection \<open>The declarations that the callbacks write\<close>





























text \<open>
  The first visit of a function instance writes its declaration and the block of its
  members, and nothing else.
\<close>

lemma TSD_walk_level:
  "forEach (TSDBuilder_visitElement p) b es = Inr b' \<Longrightarrow> indentLevel b' = indentLevel b"
  by (rule forEach_level [of es "TSDBuilder_visitElement p"]) (use TSD_level_all in blast)+

lemma TSD_visitNamespace_text:
  assumes "TSDBuilder_visitNamespace p b e = Inr b'"
  shows "\<exists>b2 b3. seen b2 = seen b \<and> indentLevel b2 = indentLevel b + 1 \<and>
      forEach (TSDBuilder_visitElement p) b2 (map snd (membersOf e)) = Inr b3 \<and>
      concat (sb b') = concat (sb b) @
        TSD_membersBlock (indentLevel b) e (TSD_exportTexts p b2 (map snd (membersOf e)))"
proof (cases "membersOf e = []")
  case True
  with assms have "b' = b"
    by (auto simp: TSDBuilder_visitNamespace.simps membersOf_def split: option.splits)
  with True show ?thesis
    by (intro exI [of _ "b\<lparr>indentLevel := indentLevel b + 1\<rparr>"])
      (simp add: TSD_membersBlock_def)
next
  case False
  let ?b2 = "pushAll ((indent b (indentLevel b))\<lparr>indentLevel := indentLevel b + 1\<rparr>)
      [''namespace '', simpleName e, '' {\<newline>'']"
  from False assms obtain b3 where
    walk: "forEach (TSDBuilder_visitElement p) ?b2 (map snd (membersOf e)) = Inr b3"
    and b': "b' = push (indent (b3\<lparr>indentLevel := indentLevel b3 - 1\<rparr>) (indentLevel b3 - 1))
      ''}\<newline>''"
    by (auto simp: TSDBuilder_visitNamespace.simps membersOf_def Let_def
        split: option.splits sum.splits)
  from TSD_walk_level [OF walk] have level: "indentLevel b3 = indentLevel b + 1" by simp
  from TSD_walk_texts [OF walk] have
    "concat (sb b3) = concat (sb ?b2) @ concat (TSD_exportTexts p ?b2 (map snd (membersOf e)))"
    by simp
  with False b' level have "concat (sb b') = concat (sb b) @
      TSD_membersBlock (indentLevel b) e (TSD_exportTexts p ?b2 (map snd (membersOf e)))"
    by (simp add: TSD_membersBlock_def closing_def indentation_def)
  with walk show ?thesis
    by (intro exI [of _ ?b2] exI [of _ b3]) simp
qed







lemma IDL_visitEnum_again: "eid e \<in> seen b \<Longrightarrow> IDLBuilder_visitEnum p b e = Inr b"
  by (simp add: IDLBuilder_visitEnum.simps)



lemma TSD_visitEnum_again: "eid e \<in> seen b \<Longrightarrow> TSDBuilder_visitEnum p b e = Inr b"
  by (simp add: TSDBuilder_visitEnum.simps)









text \<open>\<^verbatim>\<open>TSDBuilder.visitNamespace\<close> fails only if the visit of a member fails.\<close>

lemma TSD_visitNamespace_Inl:
  assumes "TSDBuilder_visitNamespace p b e = Inl err"
  shows "\<exists>m \<in> snd ` set (membersOf e). \<exists>s. TSDBuilder_visitElement p s m = Inl err"
proof -
  from assms obtain ms s where "members e = Some ms"
    and "forEach (TSDBuilder_visitElement p) s (map snd ms) = Inl err"
    by (auto simp: TSDBuilder_visitNamespace.simps Let_def
        split: option.splits if_splits sum.splits)
  with forEach_Inl [of "TSDBuilder_visitElement p" s "map snd ms" err] show ?thesis
    by (auto simp: membersOf_def)
qed

lemma TSD_visitNamespace_no_members:
  "members e = None \<or> members e = Some [] \<Longrightarrow> TSDBuilder_visitNamespace p b e = Inr b"
  by (auto simp: TSDBuilder_visitNamespace.simps)

section \<open>The claims\<close>

subsection \<open>C1: the kinds on which the dispatcher fails\<close>

text \<open>
  C1 as stated fails: the dispatcher has no case for the kind \<^verbatim>\<open>FUNCTION\<close>, which the
  claim counts among the kinds that are not fatal. The function instance \<open>ex_f\<close>, as a
  module-level export, ends the run of both builders with the failed assertion of the
  \<^verbatim>\<open>default\<close> branch.
\<close>

theorem C1_function_kind_is_fatal:
  "kind ex_f = FUNCTION \<and>
   IDLBuilder_visitElement (mkProgram [(''f'', ex_f)]) newBuilder ex_f = Inl AssertionFailed \<and>
   TSDBuilder_visitElement (mkProgram [(''f'', ex_f)]) newBuilder ex_f = Inl AssertionFailed \<and>
   IDLBuilder_build (mkProgram [(''f'', ex_f)]) = Inl AssertionFailed \<and>
   TSDBuilder_build (mkProgram [(''f'', ex_f)]) = Inl AssertionFailed"
  by code_simp

text \<open>
  C1, amended: for an element that reaches the dispatcher of either builder, the
  assertion of the dispatcher fails when the kind is \<^verbatim>\<open>ENUMVALUE\<close>, \<^verbatim>\<open>FUNCTION\<close> or
  \<^verbatim>\<open>CLASS\<close>. When the kind is \<^verbatim>\<open>GLOBAL\<close>, \<^verbatim>\<open>ENUM\<close>, \<^verbatim>\<open>FUNCTION_PROTOTYPE\<close>,
  \<^verbatim>\<open>CLASS_PROTOTYPE\<close> or \<^verbatim>\<open>NAMESPACE\<close> the dispatcher itself does not fail: an error of
  the run is the error of a callback it has invoked. Nothing is stated for the kind
  \<^verbatim>\<open>INTERFACE\<close>.
\<close>

theorem C1_dispatcher_assertion:
  "(kind e \<in> {ENUMVALUE, FUNCTION, CLASS} \<longrightarrow>
      IDLBuilder_visitElement p b e = Inl AssertionFailed \<and>
      TSDBuilder_visitElement p b e = Inl AssertionFailed) \<and>
   (kind e \<in> {GLOBAL, ENUM, FUNCTION_PROTOTYPE, CLASS_PROTOTYPE, NAMESPACE} \<longrightarrow>
      (IDLBuilder_visitElement p b e = Inl err \<longrightarrow> IDL_callbackFailed p b e err) \<and>
      (TSDBuilder_visitElement p b e = Inl err \<longrightarrow> TSD_callbackFailed p b e err))"
proof (cases "kind e")
  case FUNCTION_PROTOTYPE
  then show ?thesis
    by (auto simp: IDLBuilder_visitElement.simps TSDBuilder_visitElement.simps
        IDL_callbackFailed_def TSD_callbackFailed_def
        dest!: forEach_Inl split: if_splits)
      blast+
next
  case CLASS_PROTOTYPE
  then show ?thesis
    by (auto simp: IDLBuilder_visitElement.simps TSDBuilder_visitElement.simps
        IDLBuilder_visitClass_no_error TSDBuilder_visitClass_no_error
        dest!: forEach_Inl split: if_splits)
qed (auto simp: IDLBuilder_visitElement.simps TSDBuilder_visitElement.simps
    IDL_callbackFailed_def TSD_callbackFailed_def split: if_splits)

text \<open>
  C1, amended, at two elements: the enum value \<open>ex_RED\<close>, on which both dispatchers
  fail, and the compiled global \<open>ex_Z\<close>, whose type has no name in either table, so
  that the error of the run is the error of \<^verbatim>\<open>visitGlobal\<close>.
\<close>

theorem C1_dispatcher_assertion_witness:
  "kind ex_RED \<in> {ENUMVALUE, FUNCTION, CLASS} \<and>
   IDLBuilder_visitElement (mkProgram []) newBuilder ex_RED = Inl AssertionFailed \<and>
   TSDBuilder_visitElement (mkProgram []) newBuilder ex_RED = Inl AssertionFailed \<and>
   kind ex_Z \<in> {GLOBAL, ENUM, FUNCTION_PROTOTYPE, CLASS_PROTOTYPE, NAMESPACE} \<and>
   IDLBuilder_visitElement (mkProgram []) newBuilder ex_Z = Inl AssertionFailed \<and>
   IDL_callbackFailed (mkProgram []) newBuilder ex_Z AssertionFailed \<and>
   TSDBuilder_visitElement (mkProgram []) newBuilder ex_Z = Inl AssertionFailed \<and>
   TSD_callbackFailed (mkProgram []) newBuilder ex_Z AssertionFailed"
proof -
  have k1: "kind ex_RED \<in> {ENUMVALUE, FUNCTION, CLASS}"
    by (simp add: ex_defs)
  have k2: "kind ex_Z \<in> {GLOBAL, ENUM, FUNCTION_PROTOTYPE, CLASS_PROTOTYPE, NAMESPACE}"
    by (simp add: ex_defs)
  have r1: "IDLBuilder_visitElement (mkProgram []) newBuilder ex_Z = Inl AssertionFailed"
    by code_simp
  have r2: "TSDBuilder_visitElement (mkProgram []) newBuilder ex_Z = Inl AssertionFailed"
    by code_simp
  show ?thesis
    using C1_dispatcher_assertion [of ex_RED "mkProgram []" newBuilder AssertionFailed]
      C1_dispatcher_assertion [of ex_Z "mkProgram []" newBuilder AssertionFailed]
      k1 k2 r1 r2
    by blast
qed

text \<open>
  The kind \<^verbatim>\<open>INTERFACE\<close>, which the amended claim leaves out: both builders implement
  \<^verbatim>\<open>visitInterface\<close>, which the walker declares, but the dispatcher has no case that
  calls it, and an interface that reaches the dispatcher ends the run.
\<close>

lemma interface_reaches_default_branch:
  "kind ex_I = INTERFACE \<and>
   IDLBuilder_build (mkProgram [(''I'', ex_I)]) = Inl AssertionFailed \<and>
   TSDBuilder_build (mkProgram [(''I'', ex_I)]) = Inl AssertionFailed \<and>
   (\<exists>b. IDLBuilder_visitInterface newBuilder ex_I = Inr b) \<and>
   (\<exists>b. TSDBuilder_visitInterface newBuilder ex_I = Inr b)"
proof -
  have "kind ex_I = INTERFACE \<and>
   IDLBuilder_build (mkProgram [(''I'', ex_I)]) = Inl AssertionFailed \<and>
   TSDBuilder_build (mkProgram [(''I'', ex_I)]) = Inl AssertionFailed"
    by code_simp
  then show ?thesis
    by (simp add: IDLBuilder_visitInterface_def TSDBuilder_visitInterface_def
        IDLBuilder_visitClass_def TSDBuilder_visitClass_def Let_def newBuilder_def)
qed

subsection \<open>C2: elements that are not compiled\<close>




subsection \<open>C3: an element is emitted once\<close>

text \<open>
  C3 fails in the TypeScript builder on namespaces: \<^verbatim>\<open>TSDBuilder.visitNamespace\<close> does
  not consult \<^verbatim>\<open>seen\<close>, which every other callback of both builders does. The namespace
  \<open>ex_N\<close> is a module-level export and a member of the exported namespace \<open>ex_Outer\<close>; the
  TypeScript builder opens a block for it twice (shown after the prologue), the WebIDL
  builder once.
\<close>

theorem C3_namespace_emitted_twice:
  "map_sum id (drop (length (concat TSD_prologue)))
       (TSDBuilder_build (mkProgram [(''N'', ex_N), (''Outer'', ex_Outer)])) =
     Inr ''  namespace N {\<newline>    const X: i32;\<newline>  }\<newline>  namespace Outer {\<newline>    namespace N {\<newline>    }\<newline>  }\<newline>}\<newline>'' \<and>
   IDLBuilder_build (mkProgram [(''N'', ex_N), (''Outer'', ex_Outer)]) =
     Inr ''interface ASModule {\<newline>  interface N {\<newline>    const long X = 7;\<newline>  }\<newline>  interface Outer {\<newline>  }\<newline>}\<newline>''"
  by code_simp

subsection \<open>C4: two runs on new builders\<close>

text \<open>
  C4: for every program (the export graph and the addressing width), two calls of
  \<^verbatim>\<open>IDLBuilder.build\<close>, each on a builder of its own, return the same string or both
  fail, and likewise two calls of \<^verbatim>\<open>TSDBuilder.build\<close>.
\<close>

theorem C4_two_builds_agree:
  "fst (IDLBuilder_build_twice p) = snd (IDLBuilder_build_twice p) \<and>
   fst (IDLBuilder_build_twice p) = IDLBuilder_build p \<and>
   fst (TSDBuilder_build_twice p) = snd (TSDBuilder_build_twice p) \<and>
   fst (TSDBuilder_build_twice p) = TSDBuilder_build p"
  by (simp add: IDLBuilder_build_twice_def TSDBuilder_build_twice_def Let_def
      IDLBuilder_build_def TSDBuilder_build_def)

text \<open>
  The builder has to be a new one: \<^verbatim>\<open>build()\<close> called again on the builder that a first
  call has left returns the first output followed by an empty module.
\<close>

lemma build_on_a_used_builder:
  "map_sum id fst
     (case IDLBuilder_build_method (mkProgram [(''X'', ex_X)]) newBuilder of
        Inl err \<Rightarrow> Inl err
      | Inr r \<Rightarrow> IDLBuilder_build_method (mkProgram [(''X'', ex_X)]) (snd r)) =
   Inr ''interface ASModule {\<newline>  const long X = 7;\<newline>}\<newline>interface ASModule {\<newline>}\<newline>''"
  by code_simp

subsection \<open>C5: the members of an enum in the TypeScript builder\<close>

text \<open>
  C5 fails on an enum that has values and other members: \<^verbatim>\<open>TSDBuilder.visitEnum\<close> marks
  the values as seen and then hands the enum to \<^verbatim>\<open>visitNamespace\<close>, which sends every
  member to the dispatcher, the values too, and the dispatcher has no case for
  \<^verbatim>\<open>ENUMVALUE\<close>. On the enum \<open>ex_Mixed\<close>, with the value \<^verbatim>\<open>A\<close> and the global \<^verbatim>\<open>X\<close>, the
  TypeScript builder ends with the failed assertion and emits no namespace; the WebIDL
  builder, which keeps the values away from the dispatcher, renders both members.
\<close>

theorem C5_enum_with_values_and_members_is_fatal:
  "TSDBuilder_build (mkProgram [(''Mixed'', ex_Mixed)]) = Inl AssertionFailed \<and>
   IDLBuilder_build (mkProgram [(''Mixed'', ex_Mixed)]) =
     Inr ''interface ASModule {\<newline>  interface Mixed {\<newline>    const unsigned long A = 0;\<newline>    const long X = 7;\<newline>  }\<newline>}\<newline>''"
  by code_simp

subsection \<open>C6: the WebIDL names of the primitive types\<close>

text \<open>
  C6: \<^verbatim>\<open>IDLBuilder.typeToString\<close> returns, for each of the fourteen kinds of the table of
  the specification, the spelling the table gives (the pointer-sized kinds by the
  addressing width of the program), and fails its assertion for every other kind.
\<close>

theorem C6_typeToString_table:
  "IDLBuilder_typeToString p t =
    (case map_of (WebIDL_spelling (isWasm64 p)) (Type.kind t) of
       Some s \<Rightarrow> Inr s
     | None \<Rightarrow> Inl AssertionFailed)"
  by (cases "Type.kind t") (simp_all add: IDLBuilder_typeToString_def WebIDL_spelling_def)

subsection \<open>C7: an inlined global of type i32\<close>

text \<open>
  C7: a compiled global with the flag \<^verbatim>\<open>INLINED\<close>, of type \<^verbatim>\<open>i32\<close>, named \<^verbatim>\<open>X\<close>, with
  the integer constant 7, visited for the first time at any depth. The WebIDL builder
  returns and has added the indentation of the depth and the line
  \<^verbatim>\<open>const long X = 7;\<close>. The TypeScript builder adds the indentation and the line
  \<^verbatim>\<open>const X: i32;\<close>, with no literal, and then goes on to the members of the global:
  whenever the visit returns, it has added the line and then, if the global has
  members, the namespace with their texts, and nothing else; the visit does return,
  with the line alone, when the global has no members; and it fails only if the visit
  of one of the members fails.
\<close>

theorem C7_inlined_i32_global:
  assumes "kind g = GLOBAL" and "isFlag g COMPILED" and "isFlag g INLINED"
    and "type g = Type I32" and "simpleName g = ''X''"
    and "constantValueKind g = INTEGER" and "constantIntegerValue g = 7"
    and "eid g \<notin> seen b"
  shows "(\<exists>b'. IDLBuilder_visitElement p b g = Inr b' \<and>
            concat (sb b') =
              concat (sb b) @ concat (replicate (nat (indentLevel b)) ''  '') @
              ''const long X = 7;\<newline>'') \<and>
         (\<exists>b1. TSDBuilder_visitElement p b g = TSDBuilder_visitNamespace p b1 g \<and>
            concat (sb b1) =
              concat (sb b) @ concat (replicate (nat (indentLevel b)) ''  '') @
              ''const X: i32;\<newline>'') \<and>
         (\<forall>b'. TSDBuilder_visitElement p b g = Inr b' \<longrightarrow>
            (\<exists>b2 b3. seen b2 = insert (eid g) (seen b) \<and>
               indentLevel b2 = indentLevel b + 1 \<and>
               forEach (TSDBuilder_visitElement p) b2 (map snd (membersOf g)) = Inr b3 \<and>
               concat (sb b') =
                 concat (sb b) @ concat (replicate (nat (indentLevel b)) ''  '') @
                 ''const X: i32;\<newline>'' @
                 TSD_membersBlock (indentLevel b) g
                   (TSD_exportTexts p b2 (map snd (membersOf g))))) \<and>
         (members g = None \<or> members g = Some [] \<longrightarrow>
            (\<exists>b'. TSDBuilder_visitElement p b g = Inr b' \<and>
               concat (sb b') =
                 concat (sb b) @ concat (replicate (nat (indentLevel b)) ''  '') @
                 ''const X: i32;\<newline>'')) \<and>
         (\<forall>err. TSDBuilder_visitElement p b g = Inl err \<longrightarrow>
            (\<exists>m \<in> snd ` set (membersOf g). \<exists>s. TSDBuilder_visitElement p s m = Inl err))"
proof -
  let ?line = "concat (sb b) @ concat (replicate (nat (indentLevel b)) ''  '') @
      ''const X: i32;\<newline>''"
  let ?b1 = "pushAll
      (pushAll
        (push (indent (b\<lparr>seen := insert (eid g) (seen b)\<rparr>) (indentLevel b)) ''const '')
        [simpleName g, '': ''])
      [''i32'', '';\<newline>'']"
  have idl: "\<exists>b'. IDLBuilder_visitElement p b g = Inr b' \<and>
            concat (sb b') =
              concat (sb b) @ concat (replicate (nat (indentLevel b)) ''  '') @
              ''const long X = 7;\<newline>''"
    using assms
    by (simp add: IDLBuilder_visitElement.simps IDLBuilder_visitGlobal_def Let_def
        IDLBuilder_typeToString_def i64_to_string_7)
  have ns: "TSDBuilder_visitElement p b g = TSDBuilder_visitNamespace p ?b1 g"
    using assms
    by (simp add: TSDBuilder_visitElement.simps TSDBuilder_visitGlobal.simps Let_def
        TSDBuilder_typeToString_def)
  have line: "concat (sb ?b1) = ?line"
    using assms by simp
  have ret: "\<exists>b2 b3. seen b2 = insert (eid g) (seen b) \<and>
      indentLevel b2 = indentLevel b + 1 \<and>
      forEach (TSDBuilder_visitElement p) b2 (map snd (membersOf g)) = Inr b3 \<and>
      concat (sb b') = ?line @
        TSD_membersBlock (indentLevel b) g (TSD_exportTexts p b2 (map snd (membersOf g)))"
    if "TSDBuilder_visitElement p b g = Inr b'" for b'
  proof -
    from that ns have "TSDBuilder_visitNamespace p ?b1 g = Inr b'" by simp
    from TSD_visitNamespace_text [OF this] show ?thesis
      unfolding line by simp
  qed
  have none: "\<exists>b'. TSDBuilder_visitElement p b g = Inr b' \<and> concat (sb b') = ?line"
    if "members g = None \<or> members g = Some []"
    using ns line TSD_visitNamespace_no_members [OF that, of p ?b1] by simp
  have fails: "\<exists>m \<in> snd ` set (membersOf g). \<exists>s. TSDBuilder_visitElement p s m = Inl err"
    if "TSDBuilder_visitElement p b g = Inl err" for err
    using that ns TSD_visitNamespace_Inl [of p ?b1 g err] by simp
  from ns line have "\<exists>b1. TSDBuilder_visitElement p b g = TSDBuilder_visitNamespace p b1 g \<and>
      concat (sb b1) = ?line"
    by blast
  with idl ret none fails show ?thesis
    by (intro conjI allI impI) (simp_all only: append_assoc)
qed

text \<open>
  C7 at a builder at depth one: at the global \<open>ex_X\<close>, which has no members; at
  \<open>ex_XY\<close>, whose member is a global; and at \<open>ex_XMixed\<close>, whose member is an enum on
  which the TypeScript builder fails. Then the two outputs for the module that exports
  \<open>ex_X\<close> alone (that of the TypeScript builder after its prologue).
\<close>

theorem C7_inlined_i32_global_witness:
  "kind ex_X = GLOBAL \<and> isFlag ex_X COMPILED \<and> isFlag ex_X INLINED \<and>
   type ex_X = Type I32 \<and> simpleName ex_X = ''X'' \<and>
   constantValueKind ex_X = INTEGER \<and> constantIntegerValue ex_X = 7 \<and>
   eid ex_X \<notin> seen (newBuilder\<lparr>indentLevel := 1\<rparr>) \<and>
   (\<exists>b'. IDLBuilder_visitElement (mkProgram []) (newBuilder\<lparr>indentLevel := 1\<rparr>) ex_X = Inr b' \<and>
      concat (sb b') = ''  const long X = 7;\<newline>'') \<and>
   (\<exists>b1.
      TSDBuilder_visitElement (mkProgram []) (newBuilder\<lparr>indentLevel := 1\<rparr>) ex_X =
        TSDBuilder_visitNamespace (mkProgram []) b1 ex_X \<and>
      concat (sb b1) = ''  const X: i32;\<newline>'') \<and>
   members ex_X = None \<and>
   (\<exists>b'. TSDBuilder_visitElement (mkProgram []) (newBuilder\<lparr>indentLevel := 1\<rparr>) ex_X = Inr b' \<and>
      concat (sb b') = ''  const X: i32;\<newline>'') \<and>
   kind ex_XY = GLOBAL \<and> isFlag ex_XY COMPILED \<and> isFlag ex_XY INLINED \<and>
   type ex_XY = Type I32 \<and> simpleName ex_XY = ''X'' \<and>
   constantValueKind ex_XY = INTEGER \<and> constantIntegerValue ex_XY = 7 \<and>
   eid ex_XY \<notin> seen (newBuilder\<lparr>indentLevel := 1\<rparr>) \<and>
   (\<exists>b'. TSDBuilder_visitElement (mkProgram []) (newBuilder\<lparr>indentLevel := 1\<rparr>) ex_XY = Inr b' \<and>
      concat (sb b') =
        ''  const X: i32;\<newline>  namespace X {\<newline>    Y: f64;\<newline>  }\<newline>'') \<and>
   kind ex_XMixed = GLOBAL \<and> isFlag ex_XMixed COMPILED \<and> isFlag ex_XMixed INLINED \<and>
   type ex_XMixed = Type I32 \<and> simpleName ex_XMixed = ''X'' \<and>
   constantValueKind ex_XMixed = INTEGER \<and> constantIntegerValue ex_XMixed = 7 \<and>
   eid ex_XMixed \<notin> seen (newBuilder\<lparr>indentLevel := 1\<rparr>) \<and>
   TSDBuilder_visitElement (mkProgram []) (newBuilder\<lparr>indentLevel := 1\<rparr>) ex_XMixed =
     Inl AssertionFailed \<and>
   (\<exists>m \<in> snd ` set (membersOf ex_XMixed). \<exists>s.
      TSDBuilder_visitElement (mkProgram []) s m = Inl AssertionFailed) \<and>
   IDLBuilder_build (mkProgram [(''X'', ex_X)]) =
     Inr ''interface ASModule {\<newline>  const long X = 7;\<newline>}\<newline>'' \<and>
   map_sum id (drop (length (concat TSD_prologue)))
       (TSDBuilder_build (mkProgram [(''X'', ex_X)])) =
     Inr ''  const X: i32;\<newline>}\<newline>''"
proof -
  let ?p = "mkProgram []"
  let ?b = "newBuilder\<lparr>indentLevel := 1\<rparr>"
  have h: "kind ex_X = GLOBAL" "isFlag ex_X COMPILED" "isFlag ex_X INLINED"
    "type ex_X = Type I32" "simpleName ex_X = ''X''"
    "constantValueKind ex_X = INTEGER" "constantIntegerValue ex_X = 7"
    "eid ex_X \<notin> seen ?b"
    by (simp_all add: ex_defs isFlag_def newBuilder_def)
  have hy: "kind ex_XY = GLOBAL" "isFlag ex_XY COMPILED" "isFlag ex_XY INLINED"
    "type ex_XY = Type I32" "simpleName ex_XY = ''X''"
    "constantValueKind ex_XY = INTEGER" "constantIntegerValue ex_XY = 7"
    "eid ex_XY \<notin> seen ?b"
    by (simp_all add: ex_XY_def isFlag_def newBuilder_def)
  have hm: "kind ex_XMixed = GLOBAL" "isFlag ex_XMixed COMPILED" "isFlag ex_XMixed INLINED"
    "type ex_XMixed = Type I32" "simpleName ex_XMixed = ''X''"
    "constantValueKind ex_XMixed = INTEGER" "constantIntegerValue ex_XMixed = 7"
    "eid ex_XMixed \<notin> seen ?b"
    by (simp_all add: ex_XMixed_def isFlag_def newBuilder_def)
  have m: "members ex_X = None"
    by (simp add: ex_defs)
  have ind: "concat (sb ?b) @ concat (replicate (nat (indentLevel ?b)) ''  '') = ''  ''"
    by (simp add: newBuilder_def)
  have run: "isl (TSDBuilder_visitElement ?p ?b ex_XY) = False"
    "TSDBuilder_visitElement ?p ?b ex_XMixed = Inl AssertionFailed"
    by code_simp+
  then obtain b' where ry: "TSDBuilder_visitElement ?p ?b ex_XY = Inr b'"
    by (cases "TSDBuilder_visitElement ?p ?b ex_XY") auto
  have out: "IDLBuilder_build (mkProgram [(''X'', ex_X)]) =
     Inr ''interface ASModule {\<newline>  const long X = 7;\<newline>}\<newline>'' \<and>
   map_sum id (drop (length (concat TSD_prologue)))
       (TSDBuilder_build (mkProgram [(''X'', ex_X)])) =
     Inr ''  const X: i32;\<newline>}\<newline>''"
    by code_simp
  from C7_inlined_i32_global [OF h, of ?p] m
  have 1: "\<exists>b'. IDLBuilder_visitElement ?p ?b ex_X = Inr b' \<and>
      concat (sb b') = ''  const long X = 7;\<newline>''"
    and 2: "\<exists>b1. TSDBuilder_visitElement ?p ?b ex_X = TSDBuilder_visitNamespace ?p b1 ex_X \<and>
      concat (sb b1) = ''  const X: i32;\<newline>''"
    and 3: "\<exists>b'. TSDBuilder_visitElement ?p ?b ex_X = Inr b' \<and>
      concat (sb b') = ''  const X: i32;\<newline>''"
    by (simp_all add: newBuilder_def)
  have y: "kind ex_Y = GLOBAL" "isFlag ex_Y COMPILED" "eid ex_Y \<noteq> eid ex_XY"
    "\<not> isFlag ex_Y INLINED" "type ex_Y = Type F64" "simpleName ex_Y = ''Y''"
    "members ex_Y = None"
    by (simp_all add: ex_defs ex_XY_def isFlag_def)
  have ty: "TSD_exportTexts ?p b2 [ex_Y] = [''    Y: f64;\<newline>'']"
    if "seen b2 = {eid ex_XY}" "indentLevel b2 = 1 + 1" for b2
  proof -
    have "TSDBuilder_visitElement ?p b2 ex_Y =
        Inr (pushAll (pushAll (indent (b2\<lparr>seen := insert (eid ex_Y) (seen b2)\<rparr>)
          (indentLevel b2)) [''Y'', '': '']) [''f64'', '';\<newline>''])"
      using y that(1)
      by (simp add: TSDBuilder_visitElement.simps TSDBuilder_visitGlobal.simps
          TSDBuilder_visitNamespace.simps Let_def TSDBuilder_typeToString_def)
    with that(2) show ?thesis
      unfolding TSD_exportTexts.simps by (simp add: numeral_2_eq_2)
  qed
  have my: "map snd (membersOf ex_XY) = [ex_Y]" "insert (eid ex_XY) (seen ?b) = {eid ex_XY}"
    "indentLevel ?b = 1"
    by (simp_all add: membersOf_def ex_XY_def newBuilder_def)
  have blk: "concat (sb ?b) @ concat (replicate (nat 1) ''  '') @ ''const X: i32;\<newline>'' @
      TSD_membersBlock 1 ex_XY [''    Y: f64;\<newline>''] =
    ''  const X: i32;\<newline>  namespace X {\<newline>    Y: f64;\<newline>  }\<newline>''"
    by code_simp
  have 4: "\<exists>b'. TSDBuilder_visitElement ?p ?b ex_XY = Inr b' \<and>
      concat (sb b') =
        ''  const X: i32;\<newline>  namespace X {\<newline>    Y: f64;\<newline>  }\<newline>''"
  proof -
    from C7_inlined_i32_global
      [OF hy, of ?p, THEN conjunct2, THEN conjunct2, THEN conjunct1, rule_format, OF ry]
    obtain b2 b3 where a: "seen b2 = insert (eid ex_XY) (seen ?b)"
      "indentLevel b2 = indentLevel ?b + 1"
      "concat (sb b') =
        concat (sb ?b) @ concat (replicate (nat (indentLevel ?b)) ''  '') @
        ''const X: i32;\<newline>'' @
        TSD_membersBlock (indentLevel ?b) ex_XY
          (TSD_exportTexts ?p b2 (map snd (membersOf ex_XY)))"
      by blast
    from ty [OF a(1,2) [unfolded my]] a(3) [unfolded my] have "concat (sb b') =
        concat (sb ?b) @ concat (replicate (nat 1) ''  '') @ ''const X: i32;\<newline>'' @
        TSD_membersBlock 1 ex_XY [''    Y: f64;\<newline>'']"
      by (simp only:)
    with ry show ?thesis unfolding blk by blast
  qed
  from C7_inlined_i32_global [OF hm, of ?p] run(2)
  have 5: "\<exists>m \<in> snd ` set (membersOf ex_XMixed). \<exists>s.
      TSDBuilder_visitElement ?p s m = Inl AssertionFailed"
    by blast
  from h hy hm m out run(2) 1 2 3 4 5 show ?thesis
    by (intro conjI) blast+
qed

subsection \<open>C8: a namespace without members\<close>

text \<open>
  C8: for a compiled namespace with no members (\<^verbatim>\<open>null\<close> or an empty map) that has
  not been visited before, the TypeScript builder leaves the builder as it was, so it
  adds no text, and the WebIDL builder adds the block \<^verbatim>\<open>interface <name> {\<close>,
  \<^verbatim>\<open>}\<close>, both lines at the depth of the visit, which it leaves unchanged.
\<close>

theorem C8_empty_namespace:
  assumes "kind e = NAMESPACE" and "isFlag e COMPILED"
    and "members e = None \<or> members e = Some []"
    and "eid e \<notin> seen b"
  shows "TSDBuilder_visitElement p b e = Inr b \<and>
         IDLBuilder_visitElement p b e =
           Inr (b\<lparr>sb := sb b @
                   [concat (replicate (nat (indentLevel b)) ''  ''),
                    ''interface '', simpleName e, '' {\<newline>'',
                    concat (replicate (nat (indentLevel b)) ''  ''), ''}\<newline>''],
                 seen := insert (eid e) (seen b)\<rparr>)"
  using assms
  by (auto simp: TSDBuilder_visitElement.simps TSDBuilder_visitNamespace.simps
      IDLBuilder_visitElement.simps IDLBuilder_visitNamespace.simps Let_def
      push_def pushAll_def indent_def)

text \<open>
  C8 at the namespace \<open>ex_Empty\<close> and a builder at depth one, and the two outputs for
  the module that exports \<open>ex_Empty\<close> alone.
\<close>

theorem C8_empty_namespace_witness:
  "kind ex_Empty = NAMESPACE \<and> isFlag ex_Empty COMPILED \<and>
   (members ex_Empty = None \<or> members ex_Empty = Some []) \<and>
   eid ex_Empty \<notin> seen (newBuilder\<lparr>indentLevel := 1\<rparr>) \<and>
   TSDBuilder_visitElement (mkProgram []) (newBuilder\<lparr>indentLevel := 1\<rparr>) ex_Empty =
     Inr (newBuilder\<lparr>indentLevel := 1\<rparr>) \<and>
   map_sum id (\<lambda>b. concat (sb b))
       (IDLBuilder_visitElement (mkProgram []) (newBuilder\<lparr>indentLevel := 1\<rparr>) ex_Empty) =
     Inr ''  interface Empty {\<newline>  }\<newline>'' \<and>
   IDLBuilder_build (mkProgram [(''Empty'', ex_Empty)]) =
     Inr ''interface ASModule {\<newline>  interface Empty {\<newline>  }\<newline>}\<newline>'' \<and>
   map_sum id (drop (length (concat TSD_prologue)))
       (TSDBuilder_build (mkProgram [(''Empty'', ex_Empty)])) =
     Inr ''}\<newline>''"
proof -
  have h: "kind ex_Empty = NAMESPACE" "isFlag ex_Empty COMPILED"
    "members ex_Empty = None \<or> members ex_Empty = Some []"
    "eid ex_Empty \<notin> seen (newBuilder\<lparr>indentLevel := 1\<rparr>)"
    by (simp_all add: ex_defs isFlag_def newBuilder_def)
  have n: "simpleName ex_Empty = ''Empty''"
    by (simp add: ex_defs)
  have out: "IDLBuilder_build (mkProgram [(''Empty'', ex_Empty)]) =
     Inr ''interface ASModule {\<newline>  interface Empty {\<newline>  }\<newline>}\<newline>'' \<and>
   map_sum id (drop (length (concat TSD_prologue)))
       (TSDBuilder_build (mkProgram [(''Empty'', ex_Empty)])) =
     Inr ''}\<newline>''"
    by code_simp
  show ?thesis
    using C8_empty_namespace [OF h, of "mkProgram []"] h n out
    by (simp add: newBuilder_def)
qed

subsection \<open>C9: the order of the exports\<close>

text \<open>
  C9: when a builder returns an output for a program, the output is the opening of
  the module, then the texts that the visits of the module-level exports have added,
  one text for each export and in the order of the export mapping, then the closing
  brace. An export that comes earlier in the mapping has its text earlier in the output,
  in the WebIDL and in the TypeScript output.
\<close>

theorem C9_exports_in_order:
  "(IDLBuilder_build p = Inr out \<longrightarrow>
      out = ''interface ASModule {\<newline>'' @
            concat (IDL_exportTexts p IDL_walkStart (map snd (moduleLevelExports p))) @
            ''}\<newline>'' \<and>
      length (IDL_exportTexts p IDL_walkStart (map snd (moduleLevelExports p))) =
        length (moduleLevelExports p)) \<and>
   (TSDBuilder_build p = Inr out' \<longrightarrow>
      out' = concat TSD_prologue @
            concat (TSD_exportTexts p TSD_walkStart (map snd (moduleLevelExports p))) @
            ''}\<newline>'' \<and>
      length (TSD_exportTexts p TSD_walkStart (map snd (moduleLevelExports p))) =
        length (moduleLevelExports p))"
proof (intro conjI impI)
  assume "IDLBuilder_build p = Inr out"
  then obtain b' where w: "IDLBuilder_walk p IDL_walkStart = Inr b'"
    and out: "out = concat (sb b') @ ''}\<newline>''"
    by (auto simp: IDLBuilder_build_def IDLBuilder_build_method_def Let_def IDL_walkStart_def
        newBuilder_def split: sum.splits)
  from IDL_walk_texts [OF w [unfolded IDLBuilder_walk_def]]
  show "out = ''interface ASModule {\<newline>'' @
            concat (IDL_exportTexts p IDL_walkStart (map snd (moduleLevelExports p))) @
            ''}\<newline>''"
    and "length (IDL_exportTexts p IDL_walkStart (map snd (moduleLevelExports p))) =
        length (moduleLevelExports p)"
    by (simp_all add: out IDL_walkStart_def newBuilder_def)
next
  assume "TSDBuilder_build p = Inr out'"
  then obtain b' where w: "TSDBuilder_walk p TSD_walkStart = Inr b'"
    and out: "out' = concat (sb b') @ ''}\<newline>''"
    by (auto simp: TSDBuilder_build_def TSDBuilder_build_method_def Let_def TSD_walkStart_def
        TSD_prologue_def newBuilder_def split: sum.splits)
  from TSD_walk_texts [OF w [unfolded TSDBuilder_walk_def]]
  show "out' = concat TSD_prologue @
            concat (TSD_exportTexts p TSD_walkStart (map snd (moduleLevelExports p))) @
            ''}\<newline>''"
    and "length (TSD_exportTexts p TSD_walkStart (map snd (moduleLevelExports p))) =
        length (moduleLevelExports p)"
    by (simp_all add: out TSD_walkStart_def newBuilder_def)
qed

text \<open>
  C9 at the module \<open>ex_XYE\<close>, which exports \<^verbatim>\<open>X\<close>, \<^verbatim>\<open>Y\<close> and \<^verbatim>\<open>Empty\<close> in this order:
  the three texts of each builder, and the outputs, which hold them in this order.
\<close>

theorem C9_exports_in_order_witness:
  "IDLBuilder_build ex_XYE =
     Inr ''interface ASModule {\<newline>  const long X = 7;\<newline>  unrestricted double Y;\<newline>  interface Empty {\<newline>  }\<newline>}\<newline>'' \<and>
   IDL_exportTexts ex_XYE IDL_walkStart (map snd (moduleLevelExports ex_XYE)) =
     [''  const long X = 7;\<newline>'', ''  unrestricted double Y;\<newline>'',
      ''  interface Empty {\<newline>  }\<newline>''] \<and>
   length (IDL_exportTexts ex_XYE IDL_walkStart (map snd (moduleLevelExports ex_XYE))) =
     length (moduleLevelExports ex_XYE) \<and>
   TSDBuilder_build ex_XYE =
     Inr (concat TSD_prologue @ ''  const X: i32;\<newline>  Y: f64;\<newline>}\<newline>'') \<and>
   TSD_exportTexts ex_XYE TSD_walkStart (map snd (moduleLevelExports ex_XYE)) =
     [''  const X: i32;\<newline>'', ''  Y: f64;\<newline>'', ''''] \<and>
   length (TSD_exportTexts ex_XYE TSD_walkStart (map snd (moduleLevelExports ex_XYE))) =
     length (moduleLevelExports ex_XYE)"
proof -
  have 1: "IDLBuilder_build ex_XYE =
     Inr ''interface ASModule {\<newline>  const long X = 7;\<newline>  unrestricted double Y;\<newline>  interface Empty {\<newline>  }\<newline>}\<newline>''"
    by code_simp
  have 2: "TSDBuilder_build ex_XYE =
     Inr (concat TSD_prologue @ ''  const X: i32;\<newline>  Y: f64;\<newline>}\<newline>'')"
    by code_simp
  have 3: "IDL_exportTexts ex_XYE IDL_walkStart (map snd (moduleLevelExports ex_XYE)) =
     [''  const long X = 7;\<newline>'', ''  unrestricted double Y;\<newline>'',
      ''  interface Empty {\<newline>  }\<newline>'']"
    by code_simp
  have 4: "TSD_exportTexts ex_XYE TSD_walkStart (map snd (moduleLevelExports ex_XYE)) =
     [''  const X: i32;\<newline>'', ''  Y: f64;\<newline>'', '''']"
    by code_simp
  from C9_exports_in_order [of ex_XYE _ _] 1 2
  have "length (IDL_exportTexts ex_XYE IDL_walkStart (map snd (moduleLevelExports ex_XYE))) =
     length (moduleLevelExports ex_XYE) \<and>
     length (TSD_exportTexts ex_XYE TSD_walkStart (map snd (moduleLevelExports ex_XYE))) =
     length (moduleLevelExports ex_XYE)"
    by blast
  with 1 2 3 4 show ?thesis by blast
qed

subsection \<open>C10: the depth counter of the WebIDL builder\<close>

text \<open>
  C10 fails in \<^verbatim>\<open>IDLBuilder.visitFunction\<close> on a function with members: the block of
  the members is opened with \<^verbatim>\<open>indent(sb, this.indentLevel)\<close> and closed with
  \<^verbatim>\<open>indent(sb, --this.indentLevel)\<close>, where \<^verbatim>\<open>visitEnum\<close>, \<^verbatim>\<open>visitClass\<close> and
  \<^verbatim>\<open>visitNamespace\<close> open theirs with \<^verbatim>\<open>this.indentLevel++\<close>. The function \<open>ex_g\<close>,
  with the member \<^verbatim>\<open>X\<close>, visited at depth one, leaves the depth at zero; in the output
  for its prototype and the global \<^verbatim>\<open>Y\<close> the member is not indented below the block,
  the block is closed one level left of where it was opened, and \<^verbatim>\<open>Y\<close> follows at
  depth zero.
\<close>

theorem C10_visitFunction_lowers_the_depth:
  "map_sum id indentLevel
     (IDLBuilder_visitFunction (mkProgram []) (newBuilder\<lparr>indentLevel := 1\<rparr>) ex_g) =
     Inr 0 \<and>
   IDLBuilder_build (mkProgram [(''g'', ex_gProto), (''Y'', ex_Y)]) =
     Inr ''interface ASModule {\<newline>  void g();\<newline>  interface g {\<newline>  const long X = 7;\<newline>}\<newline>unrestricted double Y;\<newline>}\<newline>''"
  by code_simp

section \<open>Further properties of the builders\<close>

subsection \<open>The TypeScript names of the primitive types\<close>

text \<open>
  \<^verbatim>\<open>TSDBuilder.typeToString\<close> returns, for each of the fourteen kinds, the alias that the
  table of section 4.3 gives, and fails its assertion for every other kind.
\<close>

theorem TSD_typeToString_table:
  "TSDBuilder_typeToString p t =
    (case map_of (TypeScript_spelling (isWasm64 p)) (Type.kind t) of
       Some s \<Rightarrow> Inr s
     | None \<Rightarrow> Inl AssertionFailed)"
  by (cases "Type.kind t") (simp_all add: TSDBuilder_typeToString_def TypeScript_spelling_def)

subsection \<open>A second visit adds nothing\<close>

text \<open>
  In the WebIDL builder, once a callback has returned for an element, the same
  callback on the same element later in the run, after any further elements have been
  visited, leaves the builder as it is: the element is emitted once. This holds for
  all five callbacks.
\<close>

theorem IDL_second_visit_adds_nothing:
  assumes "forEach (IDLBuilder_visitElement p) b1 es = Inr b2"
  shows "(IDLBuilder_visitGlobal p b e = Inr b1 \<longrightarrow> IDLBuilder_visitGlobal p b2 e = Inr b2) \<and>
    (IDLBuilder_visitEnum p b e = Inr b1 \<longrightarrow> IDLBuilder_visitEnum p b2 e = Inr b2) \<and>
    (IDLBuilder_visitFunction p b e = Inr b1 \<longrightarrow> IDLBuilder_visitFunction p b2 e = Inr b2) \<and>
    (IDLBuilder_visitClass b e = Inr b1 \<longrightarrow> IDLBuilder_visitClass b2 e = Inr b2) \<and>
    (IDLBuilder_visitNamespace p b e = Inr b1 \<longrightarrow> IDLBuilder_visitNamespace p b2 e = Inr b2)"
proof -
  have later: "eid e \<in> seen b2" if "eid e \<in> seen b1"
    using IDL_walk_seen_mono [OF assms that] .
  show ?thesis
  proof (intro conjI impI)
    assume "IDLBuilder_visitGlobal p b e = Inr b1"
    then have "eid e \<in> seen b2" by (intro later IDL_callbacks_mark(1))
    then show "IDLBuilder_visitGlobal p b2 e = Inr b2" by (rule IDL_seen_is_skipped(1))
  next
    assume "IDLBuilder_visitEnum p b e = Inr b1"
    then have "eid e \<in> seen b2" by (intro later IDL_callbacks_mark(2))
    then show "IDLBuilder_visitEnum p b2 e = Inr b2" by (rule IDL_seen_is_skipped(2))
  next
    assume "IDLBuilder_visitFunction p b e = Inr b1"
    then have "eid e \<in> seen b2" by (intro later IDL_callbacks_mark(3))
    then show "IDLBuilder_visitFunction p b2 e = Inr b2" by (rule IDL_seen_is_skipped(3))
  next
    assume "IDLBuilder_visitClass b e = Inr b1"
    then have "eid e \<in> seen b2" by (intro later IDL_callbacks_mark(4))
    then show "IDLBuilder_visitClass b2 e = Inr b2" by (rule IDL_seen_is_skipped(4))
  next
    assume "IDLBuilder_visitNamespace p b e = Inr b1"
    then have "eid e \<in> seen b2" by (intro later IDL_callbacks_mark(5))
    then show "IDLBuilder_visitNamespace p b2 e = Inr b2" by (rule IDL_seen_is_skipped(5))
  qed
qed

text \<open>
  At the global \<open>ex_X\<close>: it is visited from a new builder, then \<open>ex_Y\<close> is visited, and
  a second visit of \<open>ex_X\<close> changes nothing.
\<close>

theorem IDL_second_visit_adds_nothing_witness:
  "forEach (IDLBuilder_visitElement (mkProgram [])) IDL_afterX [ex_Y] = Inr IDL_afterXY \<and>
   IDLBuilder_visitGlobal (mkProgram []) newBuilder ex_X = Inr IDL_afterX \<and>
   IDLBuilder_visitGlobal (mkProgram []) IDL_afterXY ex_X = Inr IDL_afterXY"
proof -
  have 1: "forEach (IDLBuilder_visitElement (mkProgram [])) IDL_afterX [ex_Y] = Inr IDL_afterXY"
    by code_simp
  have 2: "IDLBuilder_visitGlobal (mkProgram []) newBuilder ex_X = Inr IDL_afterX"
    by code_simp
  from IDL_second_visit_adds_nothing [OF 1, of newBuilder ex_X] 1 2 show ?thesis
    by blast
qed

text \<open>
  In the TypeScript builder the same holds for \<^verbatim>\<open>visitGlobal\<close>, \<^verbatim>\<open>visitEnum\<close>,
  \<^verbatim>\<open>visitFunction\<close> and \<^verbatim>\<open>visitClass\<close>; \<^verbatim>\<open>visitNamespace\<close> is not among them.
\<close>

theorem TSD_second_visit_adds_nothing:
  assumes "forEach (TSDBuilder_visitElement p) b1 es = Inr b2"
  shows "(TSDBuilder_visitGlobal p b e = Inr b1 \<longrightarrow> TSDBuilder_visitGlobal p b2 e = Inr b2) \<and>
    (TSDBuilder_visitEnum p b e = Inr b1 \<longrightarrow> TSDBuilder_visitEnum p b2 e = Inr b2) \<and>
    (TSDBuilder_visitFunction p b e = Inr b1 \<longrightarrow> TSDBuilder_visitFunction p b2 e = Inr b2) \<and>
    (TSDBuilder_visitClass b e = Inr b1 \<longrightarrow> TSDBuilder_visitClass b2 e = Inr b2)"
proof -
  have later: "eid e \<in> seen b2" if "eid e \<in> seen b1"
    using TSD_walk_seen_mono [OF assms that] .
  show ?thesis
  proof (intro conjI impI)
    assume "TSDBuilder_visitGlobal p b e = Inr b1"
    then have "eid e \<in> seen b2" by (intro later TSD_callbacks_mark(1))
    then show "TSDBuilder_visitGlobal p b2 e = Inr b2" by (rule TSD_seen_is_skipped(1))
  next
    assume "TSDBuilder_visitEnum p b e = Inr b1"
    then have "eid e \<in> seen b2" by (intro later TSD_callbacks_mark(2))
    then show "TSDBuilder_visitEnum p b2 e = Inr b2" by (rule TSD_seen_is_skipped(2))
  next
    assume "TSDBuilder_visitFunction p b e = Inr b1"
    then have "eid e \<in> seen b2" by (intro later TSD_callbacks_mark(3))
    then show "TSDBuilder_visitFunction p b2 e = Inr b2" by (rule TSD_seen_is_skipped(3))
  next
    assume "TSDBuilder_visitClass b e = Inr b1"
    then have "eid e \<in> seen b2" by (intro later TSD_callbacks_mark(4))
    then show "TSDBuilder_visitClass b2 e = Inr b2" by (rule TSD_seen_is_skipped(4))
  qed
qed

text \<open>At the global \<open>ex_X\<close>, as for the WebIDL builder.\<close>

theorem TSD_second_visit_adds_nothing_witness:
  "forEach (TSDBuilder_visitElement (mkProgram [])) TSD_afterX [ex_Y] = Inr TSD_afterXY \<and>
   TSDBuilder_visitGlobal (mkProgram []) newBuilder ex_X = Inr TSD_afterX \<and>
   TSDBuilder_visitGlobal (mkProgram []) TSD_afterXY ex_X = Inr TSD_afterXY"
proof -
  have 1: "forEach (TSDBuilder_visitElement (mkProgram [])) TSD_afterX [ex_Y] = Inr TSD_afterXY"
    by code_simp
  have 2: "TSDBuilder_visitGlobal (mkProgram []) newBuilder ex_X = Inr TSD_afterX"
    by code_simp
  from TSD_second_visit_adds_nothing [OF 1, of newBuilder ex_X] 1 2 show ?thesis
    by blast
qed

subsection \<open>The depth counter\<close>

text \<open>
  Every callback of the TypeScript builder, and its dispatcher, returns with the depth
  it was called with.
\<close>

theorem TSD_callbacks_keep_the_depth:
  "(TSDBuilder_visitElement p b e = Inr b' \<longrightarrow> indentLevel b' = indentLevel b) \<and>
   (TSDBuilder_visitGlobal p b e = Inr b' \<longrightarrow> indentLevel b' = indentLevel b) \<and>
   (TSDBuilder_visitEnum p b e = Inr b' \<longrightarrow> indentLevel b' = indentLevel b) \<and>
   (TSDBuilder_visitFunction p b e = Inr b' \<longrightarrow> indentLevel b' = indentLevel b) \<and>
   (TSDBuilder_visitClass b e = Inr b' \<longrightarrow> indentLevel b' = indentLevel b) \<and>
   (TSDBuilder_visitInterface b e = Inr b' \<longrightarrow> indentLevel b' = indentLevel b) \<and>
   (TSDBuilder_visitNamespace p b e = Inr b' \<longrightarrow> indentLevel b' = indentLevel b)"
proof -
  note all = TSD_level_all [of e]
  from all have 1: "\<forall>p b b'. TSDBuilder_visitElement p b e = Inr b' \<longrightarrow>
      indentLevel b' = indentLevel b"
    by (elim conjE)
  from all have 2: "\<forall>p b b'. TSDBuilder_visitGlobal p b e = Inr b' \<longrightarrow>
      indentLevel b' = indentLevel b"
    by (elim conjE)
  from all have 3: "\<forall>p b b'. TSDBuilder_visitEnum p b e = Inr b' \<longrightarrow>
      indentLevel b' = indentLevel b"
    by (elim conjE)
  from all have 4: "\<forall>p b b'. TSDBuilder_visitFunction p b e = Inr b' \<longrightarrow>
      indentLevel b' = indentLevel b"
    by (elim conjE)
  from all have 5: "\<forall>p b b'. TSDBuilder_visitNamespace p b e = Inr b' \<longrightarrow>
      indentLevel b' = indentLevel b"
    by (elim conjE)
  show ?thesis
    using 1 2 3 4 5 TSD_visitClass_level [of b e b']
    by (simp add: TSDBuilder_visitInterface_def)
qed

text \<open>At the namespace \<open>ex_Outer\<close>, which holds the namespace \<open>ex_N\<close>.\<close>

theorem TSD_callbacks_keep_the_depth_witness:
  "\<not> isl (TSDBuilder_visitElement (mkProgram []) newBuilder ex_Outer) \<and>
   indentLevel (projr (TSDBuilder_visitElement (mkProgram []) newBuilder ex_Outer)) =
     indentLevel newBuilder"
proof -
  have 1: "\<not> isl (TSDBuilder_visitElement (mkProgram []) newBuilder ex_Outer)"
    by code_simp
  then have "TSDBuilder_visitElement (mkProgram []) newBuilder ex_Outer =
      Inr (projr (TSDBuilder_visitElement (mkProgram []) newBuilder ex_Outer))"
    by simp
  with TSD_callbacks_keep_the_depth [of "mkProgram []" newBuilder ex_Outer
      "projr (TSDBuilder_visitElement (mkProgram []) newBuilder ex_Outer)"] 1
  show ?thesis by blast
qed

text \<open>
  No callback of the WebIDL builder returns with a depth above the one it was called
  with; \<^verbatim>\<open>visitGlobal\<close>, \<^verbatim>\<open>visitClass\<close> and \<^verbatim>\<open>visitInterface\<close> return with the same.
\<close>

theorem IDL_callbacks_never_raise_the_depth:
  "(IDLBuilder_visitElement p b e = Inr b' \<longrightarrow> indentLevel b' \<le> indentLevel b) \<and>
   (IDLBuilder_visitGlobal p b e = Inr b' \<longrightarrow> indentLevel b' = indentLevel b) \<and>
   (IDLBuilder_visitEnum p b e = Inr b' \<longrightarrow> indentLevel b' \<le> indentLevel b) \<and>
   (IDLBuilder_visitFunction p b e = Inr b' \<longrightarrow> indentLevel b' \<le> indentLevel b) \<and>
   (IDLBuilder_visitClass b e = Inr b' \<longrightarrow> indentLevel b' = indentLevel b) \<and>
   (IDLBuilder_visitInterface b e = Inr b' \<longrightarrow> indentLevel b' = indentLevel b) \<and>
   (IDLBuilder_visitNamespace p b e = Inr b' \<longrightarrow> indentLevel b' \<le> indentLevel b)"
proof -
  note all = IDL_level_all [of e]
  from all have 1: "\<forall>p b b'. IDLBuilder_visitElement p b e = Inr b' \<longrightarrow>
      indentLevel b' \<le> indentLevel b"
    by (elim conjE)
  from all have 2: "\<forall>p b b'. IDLBuilder_visitEnum p b e = Inr b' \<longrightarrow>
      indentLevel b' \<le> indentLevel b"
    by (elim conjE)
  from all have 3: "\<forall>p b b'. IDLBuilder_visitFunction p b e = Inr b' \<longrightarrow>
      indentLevel b' \<le> indentLevel b"
    by (elim conjE)
  from all have 4: "\<forall>p b b'. IDLBuilder_visitNamespace p b e = Inr b' \<longrightarrow>
      indentLevel b' \<le> indentLevel b"
    by (elim conjE)
  show ?thesis
    using 1 2 3 4 IDL_visitGlobal_level [of p b e b'] IDL_visitClass_level [of b e b']
    by (simp add: IDLBuilder_visitInterface_def)
qed

text \<open>At the function prototype \<open>ex_gProto\<close>, whose instance has a member.\<close>

theorem IDL_callbacks_never_raise_the_depth_witness:
  "\<not> isl (IDLBuilder_visitElement (mkProgram []) newBuilder ex_gProto) \<and>
   indentLevel (projr (IDLBuilder_visitElement (mkProgram []) newBuilder ex_gProto)) \<le>
     indentLevel newBuilder"
proof -
  have 1: "\<not> isl (IDLBuilder_visitElement (mkProgram []) newBuilder ex_gProto)"
    by code_simp
  then have "IDLBuilder_visitElement (mkProgram []) newBuilder ex_gProto =
      Inr (projr (IDLBuilder_visitElement (mkProgram []) newBuilder ex_gProto))"
    by simp
  with IDL_callbacks_never_raise_the_depth [of "mkProgram []" newBuilder ex_gProto
      "projr (IDLBuilder_visitElement (mkProgram []) newBuilder ex_gProto)"] 1
  show ?thesis by blast
qed

subsection \<open>The scenarios of the specification\<close>

text \<open>
  The enum \<^verbatim>\<open>Color\<close> with the compiled, inlined values \<^verbatim>\<open>RED = 0\<close> and \<^verbatim>\<open>GREEN = 1\<close>:
  the WebIDL builder emits a nested interface with two constants of type
  \<^verbatim>\<open>unsigned long\<close>, the TypeScript builder an enum with the two values.
\<close>

theorem enum_scenario:
  "IDLBuilder_build (mkProgram [(''Color'', ex_Color2)]) =
     Inr ''interface ASModule {\<newline>  interface Color {\<newline>    const unsigned long RED = 0;\<newline>    const unsigned long GREEN = 1;\<newline>  }\<newline>}\<newline>'' \<and>
   TSDBuilder_build (mkProgram [(''Color'', ex_Color2)]) =
     Inr (concat TSD_prologue @
       ''  enum Color {\<newline>    RED = 0,\<newline>    GREEN = 1,\<newline>  }\<newline>}\<newline>'')"
  by code_simp

text \<open>
  The function prototype \<^verbatim>\<open>max\<close> with two compiled instances, for \<^verbatim>\<open>i32\<close> and for
  \<^verbatim>\<open>f64\<close>: each builder emits two declarations named \<^verbatim>\<open>max\<close>, each with the types of
  its instance.
\<close>

theorem generic_instances_scenario:
  "IDLBuilder_build (mkProgram [(''max'', ex_max)]) =
     Inr ''interface ASModule {\<newline>  long max(long a, long b);\<newline>  unrestricted double max(unrestricted double a, unrestricted double b);\<newline>}\<newline>'' \<and>
   TSDBuilder_build (mkProgram [(''max'', ex_max)]) =
     Inr (concat TSD_prologue @
       ''  function max(a: i32, b: i32): i32;\<newline>  function max(a: f64, b: f64): f64;\<newline>}\<newline>'')"
  by code_simp

end
